theory Spec2Isabelle
  imports Complex_Main "HOL-Library.Char_ord" "HOL-Library.List_Lexorder"
begin

section \<open>JavaScript values\<close>

text \<open>
  The front end handles JSON data. A JSON value is one of the constructors below; numbers
  are the exact rational values of the doubles (rounding is not modelled). A property read
  \<open>o.k\<close> gives \<open>jv option\<close>: \<open>None\<close> is JavaScript's \<open>undefined\<close>.
\<close>

datatype jv =
    JNull
  | JBool bool
  | JNum rat
  | JStr string
  | JArr "jv list"
  | JObj "(string \<times> jv) list"

type_synonym obj = "string \<rightharpoonup> jv"

text \<open>Truthiness: \<open>undefined\<close>, \<open>null\<close>, \<open>false\<close>, \<open>0\<close> and \<open>''\<close> are falsy.\<close>

fun truthy :: "jv option \<Rightarrow> bool" where
  "truthy None = False"
| "truthy (Some JNull) = False"
| "truthy (Some (JBool b)) = b"
| "truthy (Some (JNum n)) = (n \<noteq> 0)"
| "truthy (Some (JStr s)) = (s \<noteq> [])"
| "truthy (Some (JArr xs)) = True"
| "truthy (Some (JObj kvs)) = True"

text \<open>\<open>a || b\<close>\<close>

definition js_or :: "jv option \<Rightarrow> jv option \<Rightarrow> jv option" where
  "js_or a b = (if truthy a then a else b)"

text \<open>
  \<open>x.length\<close> of an array or a string; \<open>undefined\<close> for the other values (an object
  with a \<open>length\<close> key of its own does not occur among the responses).
\<close>

fun js_length :: "jv option \<Rightarrow> nat option" where
  "js_length (Some (JArr xs)) = Some (length xs)"
| "js_length (Some (JStr s)) = Some (length s)"
| "js_length _ = None"

text \<open>
  \<open>String.prototype.trim\<close> strips white space and line terminators from both ends. With
  one-byte characters these are TAB, LF, VT, FF, CR, SP and NBSP.
\<close>

definition is_ws :: "char \<Rightarrow> bool" where
  "is_ws c = (of_char c \<in> {9, 10, 11, 12, 13, 32, 160 :: nat})"

definition js_trim :: "string \<Rightarrow> string" where
  "js_trim s = rev (dropWhile is_ws (rev (dropWhile is_ws s)))"


section \<open>The Chat page\<close>

text \<open>
  The page's source exists in more than one revision. The model follows the one that
  records the elapsed time of a request; the others build the assistant message without
  the \<open>elapsed\<close> key and have no elapsed line, and their guard, history and \<open>catch\<close>
  branch are the same.
\<close>

subsection \<open>Component state and the send handler\<close>

text \<open>
  \<open>useState\<close> cells of \<open>Chat\<close>: the transcript, the input field and the loading flag.
\<close>

record chat_state =
  messages :: "obj list"
  input :: string
  loading :: bool

text \<open>The request body of \<open>sendChatMessage(message, history)\<close>.\<close>

type_synonym chat_request = "string \<times> obj list"

text \<open>
  What the awaited \<open>sendChatMessage\<close> gives: the parsed response object, or a thrown
  error (fetch rejected, the status was not ok, or the body was not JSON).
\<close>

datatype outcome = Failed | Ok obj

text \<open>
  \<open>const messageText = text || input.trim()\<close>; \<open>text\<close> is \<open>undefined\<close> when the
  handler is called from the send button or the Enter key.
\<close>

definition messageText :: "string option \<Rightarrow> chat_state \<Rightarrow> string" where
  "messageText text st =
     (case text of
        None \<Rightarrow> js_trim (input st)
      | Some t \<Rightarrow> if t \<noteq> [] then t else js_trim (input st))"

text \<open>
  One entry of \<open>messages.map(m => ({ role: m.role, content: m.role === 'user' ? m.content :
  (m.narrative || m.content || '') }))\<close>.
\<close>

definition history_turn :: "obj \<Rightarrow> obj" where
  "history_turn m =
     Map.empty
       (''role'' := m ''role'',
        ''content'' :=
          (if m ''role'' = Some (JStr ''user'') then m ''content''
           else js_or (js_or (m ''narrative'') (m ''content'')) (Some (JStr ''''))))"

definition userMsg :: "string \<Rightarrow> obj" where
  "userMsg t = [''role'' \<mapsto> JStr ''user'', ''content'' \<mapsto> JStr t]"

text \<open>
  \<open>{ role: 'assistant', content: result.narrative || '', elapsed: `${duration}s`, ...result }\<close>:
  the spread comes last, so a key of the response overrides the three keys before it.
\<close>

definition aiMsg :: "string \<Rightarrow> obj \<Rightarrow> obj" where
  "aiMsg duration result =
     Map.empty
       (''role'' \<mapsto> JStr ''assistant'',
        ''content'' := js_or (result ''narrative'') (Some (JStr '''')),
        ''elapsed'' \<mapsto> JStr (duration @ ''s'')) ++ result"

definition errorMsg :: obj where
  "errorMsg =
     [''role'' \<mapsto> JStr ''assistant'',
      ''content'' \<mapsto> JStr '''',
      ''error'' \<mapsto> JStr ''Failed to get response. Please try again.'',
      ''narrative'' \<mapsto> JStr '''']"

text \<open>
  \<open>handleSend\<close> up to its \<open>await\<close>: the guard, the user's message appended, the input
  cleared, the flag raised, and the request issued with the history of the transcript as
  rendered (the closure's \<open>messages\<close>, without the new user message). An early return
  issues no request.
\<close>

definition handleSend_begin :: "string option \<Rightarrow> chat_state \<Rightarrow> chat_state \<times> chat_request option" where
  "handleSend_begin text st =
     (let mt = messageText text st in
      if mt = [] \<or> loading st then (st, None)
      else
        (st\<lparr>messages := messages st @ [userMsg mt], input := [], loading := True\<rparr>,
         Some (mt, map history_turn (messages st))))"

text \<open>
  \<open>handleSend\<close> after the \<open>await\<close>: the assistant message built from the response, or the
  \<open>catch\<close> branch's error message, then \<open>setLoading(false)\<close>. \<open>duration\<close> is the
  elapsed time as printed by \<open>toFixed(1)\<close>, read from the clock.
\<close>

definition handleSend_settle :: "string \<Rightarrow> outcome \<Rightarrow> chat_state \<Rightarrow> chat_state" where
  "handleSend_settle duration out st =
     st\<lparr>messages := messages st @
           [case out of Ok result \<Rightarrow> aiMsg duration result | Failed \<Rightarrow> errorMsg],
        loading := False\<rparr>"

text \<open>The whole handler, with the model service as a function of the request.\<close>

definition handleSend ::
  "(string \<Rightarrow> obj list \<Rightarrow> outcome) \<Rightarrow> string \<Rightarrow> string option \<Rightarrow> chat_state \<Rightarrow> chat_state" where
  "handleSend sendChatMessage duration text st =
     (case handleSend_begin text st of
        (st1, None) \<Rightarrow> st1
      | (st1, Some (message, history)) \<Rightarrow>
          handleSend_settle duration (sendChatMessage message history) st1)"

subsection \<open>Rendering a message\<close>

text \<open>
  The children of a chat bubble. Each element carries the value it displays; how a table
  or a chart draws its rows is not modelled.
\<close>

datatype element =
    ThinkingEl jv
  | SqlEl jv
  | BigNumberEl jv
  | TableEl jv
  | ChartEl jv jv "jv option"
  | NarrativeEl jv
  | ErrorEl jv
  | ElapsedEl jv
  | UserSpan "jv option"

text \<open>\<open>if (!data || data.length === 0) return null\<close>\<close>

definition ResultTable :: "jv option \<Rightarrow> element option" where
  "ResultTable data =
     (if \<not> truthy data \<or> js_length data = Some 0 then None
      else Some (TableEl (the data)))"

text \<open>\<open>if (!data || data.length === 0 || !config) return null\<close>\<close>

definition ResultChart :: "jv option \<Rightarrow> jv option \<Rightarrow> jv option \<Rightarrow> element option" where
  "ResultChart data config type =
     (if \<not> truthy data \<or> js_length data = Some 0 \<or> \<not> truthy config then None
      else Some (ChartEl (the data) (the config) type))"

text \<open>\<open>x?.[0]\<close>\<close>

fun js_first :: "jv option \<Rightarrow> jv option" where
  "js_first (Some (JArr xs)) = (case xs of [] \<Rightarrow> None | x # _ \<Rightarrow> Some x)"
| "js_first (Some (JStr s)) = (case s of [] \<Rightarrow> None | c # _ \<Rightarrow> Some (JStr [c]))"
| "js_first (Some (JObj kvs)) = map_of kvs ''0''"
| "js_first _ = None"

text \<open>\<open>{cond && <X/>}\<close>: the element when the guard is truthy, nothing otherwise.\<close>

definition shown :: "bool \<Rightarrow> element option \<Rightarrow> element list" where
  "shown cond el = (if cond then (case el of None \<Rightarrow> [] | Some e \<Rightarrow> [e]) else [])"

text \<open>
  \<open>ChatMessage\<close>: the bubble's children in the order of the JSX, the ones whose guard
  fails or whose component returns \<open>null\<close> left out.
\<close>

definition ChatMessage :: "obj \<Rightarrow> element list" where
  "ChatMessage message =
     (let isUser = (message ''role'' = Some (JStr ''user'')) in
      shown (\<not> isUser \<and> truthy (message ''thinking''))
        (Some (ThinkingEl (the (message ''thinking''))))
      @ shown (\<not> isUser \<and> truthy (message ''sql''))
        (Some (SqlEl (the (message ''sql''))))
      @ shown (\<not> isUser \<and> message ''visualization'' = Some (JStr ''number'')
               \<and> truthy (js_first (message ''results'')))
        (Some (BigNumberEl (the (js_first (message ''results'')))))
      @ shown (\<not> isUser \<and> truthy (message ''results'')
               \<and> message ''visualization'' = Some (JStr ''table''))
        (ResultTable (message ''results''))
      @ shown (\<not> isUser \<and> truthy (message ''results'')
               \<and> message ''visualization'' \<in> {Some (JStr ''line_chart''), Some (JStr ''bar_chart'')})
        (ResultChart (message ''results'') (message ''chart_config'') (message ''visualization''))
      @ shown (\<not> isUser \<and> truthy (message ''narrative''))
        (Some (NarrativeEl (the (message ''narrative''))))
      @ shown (\<not> isUser \<and> truthy (message ''error''))
        (Some (ErrorEl (the (message ''error''))))
      @ shown (\<not> isUser \<and> truthy (message ''elapsed''))
        (Some (ElapsedEl (the (message ''elapsed''))))
      @ shown isUser (Some (UserSpan (message ''content''))))"

text \<open>The elements that display result rows, and the error line.\<close>

fun shows_rows :: "element \<Rightarrow> bool" where
  "shows_rows (BigNumberEl _) = True"
| "shows_rows (TableEl _) = True"
| "shows_rows (ChartEl _ _ _) = True"
| "shows_rows _ = False"

fun is_error_el :: "element \<Rightarrow> bool" where
  "is_error_el (ErrorEl _) = True"
| "is_error_el _ = False"

subsection \<open>The page with its outstanding requests\<close>









subsection \<open>The history placed in a request\<close>

definition sent_history :: "string option \<Rightarrow> chat_state \<Rightarrow> obj list" where
  "sent_history text st =
     (case snd (handleSend_begin text st) of
        None \<Rightarrow> []
      | Some (message, history) \<Rightarrow> history)"

text \<open>
  A transcript of one completed exchange, the assistant's turn built from a response with a
  query, no rows, the table visualization and a narrative; the user has typed the next
  question.
\<close>

definition example_result :: obj where
  "example_result =
     [''sql'' \<mapsto> JStr ''SELECT 1'', ''results'' \<mapsto> JArr [],
      ''visualization'' \<mapsto> JStr ''table'', ''narrative'' \<mapsto> JStr ''No rows.'']"

definition example_chat :: chat_state where
  "example_chat =
     \<lparr>messages = [userMsg ''first'', aiMsg ''0.5'' example_result],
      input = ''second'', loading = False\<rparr>"

section \<open>The API client\<close>

subsection \<open>Query strings\<close>

text \<open>
  \<open>URLSearchParams\<close> is an ordered list of name-value pairs. \<open>set\<close> replaces the value
  of the first pair with that name and drops the later ones, or appends a pair when the
  name is new.
\<close>

type_synonym search_params = "(string \<times> string) list"

fun params_set :: "search_params \<Rightarrow> string \<Rightarrow> string \<Rightarrow> search_params" where
  "params_set [] k v = [(k, v)]"
| "params_set ((k', v') # ps) k v =
     (if k' = k then (k, v) # filter (\<lambda>p. fst p \<noteq> k) ps
      else (k', v') # params_set ps k v)"

text \<open>
  The string a \<open>URLSearchParams\<close> object turns into inside a template literal: the
  \<open>application/x-www-form-urlencoded\<close> serialization. Letters, digits and \<open>* - . _\<close>
  stay, a space becomes \<open>+\<close>, any other byte becomes \<open>%XX\<close>.
\<close>

definition hex_digit :: "nat \<Rightarrow> char" where
  "hex_digit n = (''0123456789ABCDEF'' ! (n mod 16))"

definition is_alnum :: "char \<Rightarrow> bool" where
  "is_alnum c =
     (let n = (of_char c :: nat) in
      (48 \<le> n \<and> n \<le> 57) \<or> (65 \<le> n \<and> n \<le> 90) \<or> (97 \<le> n \<and> n \<le> 122))"

definition form_encode_char :: "char \<Rightarrow> string" where
  "form_encode_char c =
     (if is_alnum c \<or> c \<in> set ''*-._'' then [c]
      else if c = CHR '' '' then ''+''
      else [CHR ''%'', hex_digit (of_char c div 16), hex_digit (of_char c mod 16)])"

definition form_encode :: "string \<Rightarrow> string" where
  "form_encode s = concat (map form_encode_char s)"

fun params_toString :: "search_params \<Rightarrow> string" where
  "params_toString [] = []"
| "params_toString [(k, v)] = form_encode k @ ''='' @ form_encode v"
| "params_toString ((k, v) # p # ps) =
     form_encode k @ ''='' @ form_encode v @ ''&'' @ params_toString (p # ps)"

subsection \<open>fetchAnomalies\<close>

text \<open>A request handed to \<open>fetch\<close>; without an options argument the method is GET.\<close>

record request =
  req_method :: string
  req_path :: string
  req_query :: search_params

definition request_url :: "request \<Rightarrow> string" where
  "request_url r = req_path r @ ''?'' @ params_toString (req_query r)"

definition API_BASE :: string where
  "API_BASE = ''/api''"

text \<open>
  \<open>fetchAnomalies(limit = 50, minZScore = 5.0, hcpcsCode)\<close>. An argument left out is
  \<open>None\<close>. \<open>toString\<close> is \<open>Number.prototype.toString\<close>, a parameter of the model.
  The function returns the request it issues.
\<close>

definition fetchAnomalies ::
  "(rat \<Rightarrow> string) \<Rightarrow> rat option \<Rightarrow> rat option \<Rightarrow> string option \<Rightarrow> request" where
  "fetchAnomalies toString limit_arg minZScore_arg hcpcsCode =
     (let limit = (case limit_arg of None \<Rightarrow> 50 | Some l \<Rightarrow> l);
          minZScore = (case minZScore_arg of None \<Rightarrow> 5 | Some z \<Rightarrow> z);
          params = [(''limit'', toString limit), (''min_z_score'', toString minZScore)];
          params = (case hcpcsCode of
                      None \<Rightarrow> params
                    | Some c \<Rightarrow> if c \<noteq> [] then params_set params ''hcpcs_code'' c else params)
      in \<lparr>req_method = ''GET'', req_path = API_BASE @ ''/anomalies'', req_query = params\<rparr>)"

text \<open>
  Decimal digits of a natural number, and \<open>Number.prototype.toString\<close> on the
  integer-valued numbers (of magnitude below \<open>10^21\<close>, where JavaScript prints all digits).
\<close>

fun decimal :: "nat \<Rightarrow> string" where
  "decimal n =
     (if n < 10 then [''0123456789'' ! n]
      else decimal (n div 10) @ [''0123456789'' ! (n mod 10)])"

definition integer_toString :: "rat \<Rightarrow> string" where
  "integer_toString x =
     (if x < 0 then ''-'' @ decimal (nat (\<lfloor>- x\<rfloor>)) else decimal (nat (\<lfloor>x\<rfloor>)))"

subsection \<open>formatCurrency\<close>

text \<open>
  \<open>formatCurrency(value)\<close> for \<open>value\<close> a number, \<open>null\<close> or \<open>undefined\<close> (\<open>None\<close>
  stands for both, as \<open>value == null\<close> holds of both). \<open>toFixed\<close> is
  \<open>Number.prototype.toFixed\<close>, a parameter of the model; the divisions are exact.
\<close>

definition formatCurrency :: "(rat \<Rightarrow> nat \<Rightarrow> string) \<Rightarrow> rat option \<Rightarrow> string" where
  "formatCurrency toFixed value_arg =
     (case value_arg of
        None \<Rightarrow> ''$0''
      | Some v \<Rightarrow>
          if v \<ge> 10 ^ 9 then ''$'' @ toFixed (v / 10 ^ 9) 2 @ ''B''
          else if v \<ge> 10 ^ 6 then ''$'' @ toFixed (v / 10 ^ 6) 1 @ ''M''
          else if v \<ge> 10 ^ 3 then ''$'' @ toFixed (v / 10 ^ 3) 0 @ ''K''
          else ''$'' @ toFixed v 2)"

text \<open>
  \<open>toFixed\<close> in its fixed-notation range (magnitude below \<open>10^21\<close>): the integer nearest to
  \<open>x * 10^f\<close>, the larger one on a tie, printed with \<open>f\<close> digits after the point.
\<close>

definition pad_left :: "nat \<Rightarrow> string \<Rightarrow> string" where
  "pad_left k s = replicate (k - length s) CHR ''0'' @ s"

definition toFixed_digits :: "rat \<Rightarrow> nat \<Rightarrow> string" where
  "toFixed_digits x f =
     (let n = nat (\<lfloor>x * 10 ^ f + 1 / 2\<rfloor>);
          m = pad_left (Suc f) (decimal n);
          k = length m
      in if f = 0 then m else take (k - f) m @ ''.'' @ drop (k - f) m)"

definition toFixed_fixed :: "rat \<Rightarrow> nat \<Rightarrow> string" where
  "toFixed_fixed x f = (if x < 0 then ''-'' @ toFixed_digits (- x) f else toFixed_digits x f)"

section \<open>The Trends page\<close>

subsection \<open>JavaScript numbers and objects\<close>

text \<open>
  A division of finite numbers is finite unless the divisor is zero; then it is \<open>NaN\<close>
  for a zero dividend and an infinity of the dividend's sign otherwise. Finite values are
  exact rationals: rounding and overflow of doubles are not modelled.
\<close>

datatype jsnum = Fin rat | PosInf | NegInf | NaN

definition js_div :: "rat \<Rightarrow> rat \<Rightarrow> jsnum" where
  "js_div x y =
     (if y \<noteq> 0 then Fin (x / y)
      else if x = 0 then NaN
      else if 0 < x then PosInf else NegInf)"

text \<open>Multiplication by a positive finite constant.\<close>

fun js_scale :: "jsnum \<Rightarrow> rat \<Rightarrow> jsnum" where
  "js_scale (Fin x) c = Fin (x * c)"
| "js_scale n c = n"

text \<open>
  An object with string keys keeps its properties in insertion order, but enumerates the
  keys that are array indices (canonical decimal numerals below \<open>2^32 - 1\<close>) first, in
  ascending numeric order. \<open>Object.values\<close> follows this order.
\<close>

type_synonym 'v js_object = "(string \<times> 'v) list"

definition is_digit :: "char \<Rightarrow> bool" where
  "is_digit c = (48 \<le> (of_char c :: nat) \<and> (of_char c :: nat) \<le> 57)"

definition digits_value :: "string \<Rightarrow> int" where
  "digits_value s = foldl (\<lambda>a c. 10 * a + (of_char c - 48)) 0 s"

definition is_array_index :: "string \<Rightarrow> bool" where
  "is_array_index s =
     (s \<noteq> [] \<and> list_all is_digit s \<and> (s = ''0'' \<or> hd s \<noteq> CHR ''0'')
      \<and> digits_value s < 4294967295)"

definition Object_values :: "'v js_object \<Rightarrow> 'v list" where
  "Object_values ob =
     map snd (sort_key (\<lambda>p. digits_value (fst p)) (filter (\<lambda>p. is_array_index (fst p)) ob))
     @ map snd (filter (\<lambda>p. \<not> is_array_index (fst p)) ob)"

text \<open>An assignment to fields of the object stored under an existing key.\<close>

definition update_property :: "string \<Rightarrow> ('v \<Rightarrow> 'v) \<Rightarrow> 'v js_object \<Rightarrow> 'v js_object" where
  "update_property y f ob = map (\<lambda>(k, v). if k = y then (k, f v) else (k, v)) ob"

subsection \<open>Yearly totals and the growth figure\<close>

text \<open>A point of the trend series, with the fields this computation reads.\<close>

record trend =
  claim_month :: string
  total_paid :: rat
  total_claims :: rat

record yearly =
  year :: string
  spending :: rat
  claims :: rat
  months :: nat

text \<open>\<open>t.claim_month.substring(0, 4)\<close>\<close>

definition year_of :: "trend \<Rightarrow> string" where
  "year_of t = take 4 (claim_month t)"

text \<open>
  The body of \<open>trends.forEach\<close>: create the year's entry when there is none, then add
  the month to it.
\<close>

definition yearly_step :: "trend \<Rightarrow> yearly js_object \<Rightarrow> yearly js_object" where
  "yearly_step t yearlyData =
     (let y = year_of t;
          created =
            (if map_of yearlyData y = None
             then yearlyData @ [(y, \<lparr>year = y, spending = 0, claims = 0, months = 0\<rparr>)]
             else yearlyData)
      in update_property y
           (\<lambda>v. v\<lparr>spending := spending v + total_paid t,
                    claims := claims v + total_claims t,
                    months := months v + 1\<rparr>) created)"

definition yearlyData :: "trend list \<Rightarrow> yearly js_object" where
  "yearlyData trends = fold yearly_step trends []"

text \<open>\<open>Object.values(yearlyData).filter(y => y.months >= 6)\<close>\<close>

definition yearlyArr :: "trend list \<Rightarrow> yearly list" where
  "yearlyArr trends = filter (\<lambda>y. 6 \<le> months y) (Object_values (yearlyData trends))"

record growth =
  spendGrowth :: jsnum
  lastYear :: string
  prevYear :: string

text \<open>Average monthly spending of a year: \<open>y.spending / y.months\<close>.\<close>

definition monthly_avg :: "yearly \<Rightarrow> rat" where
  "monthly_avg y = spending y / of_nat (months y)"

definition getGrowth :: "trend list \<Rightarrow> growth option" where
  "getGrowth trends =
     (let yearlyArr = yearlyArr trends in
      if length yearlyArr < 2 then None
      else
        let last = yearlyArr ! (length yearlyArr - 1);
            prev = yearlyArr ! (length yearlyArr - 2);
            spendGrowth =
              js_scale (js_div (spending last / of_nat (months last)
                                 - spending prev / of_nat (months prev))
                               (spending prev / of_nat (months prev))) 100
        in Some \<lparr>spendGrowth = spendGrowth, lastYear = year last, prevYear = year prev\<rparr>)"

text \<open>The first \<open>n\<close> months of a year with the same amount each, for examples.\<close>

definition months_of :: "string \<Rightarrow> nat \<Rightarrow> rat \<Rightarrow> trend list" where
  "months_of y n amount =
     map (\<lambda>i. \<lparr>claim_month = y @ ''-'' @ [''0123456789'' ! (i div 10), ''0123456789'' ! (i mod 10)],
               total_paid = amount, total_claims = 1\<rparr>) [1..<Suc n]"

definition example_trends :: "trend list" where
  "example_trends = months_of ''2023'' 12 100 @ months_of ''2022'' 6 50 @ months_of ''2021'' 5 10"

section \<open>The aggregation service\<close>

text \<open>
  The back end is not among the sources; the definitions of this section and the next two
  follow the specification.
\<close>

text \<open>
  Modelled from the spec: the fact table's row (section 3, ClaimRecord), one per provider,
  code and month. Months are strings such as \<open>2023-01\<close>, ordered lexicographically;
  the paid amount is an exact decimal.
\<close>

record ClaimRecord =
  billing_provider :: string
  servicing_provider :: string
  procedure_code :: string
  cr_month :: string
  beneficiary_count :: nat
  claim_count :: nat
  paid_amount :: rat

text \<open>Modelled from the spec: one point of the trend series (section 3, MonthlyTrend).\<close>

record MonthlyTrend =
  mt_month :: string
  mt_total_paid :: rat
  mt_total_claims :: nat
  mt_active_providers :: nat
  mt_total_beneficiaries :: nat

text \<open>Modelled from the spec: the totals object of \<open>overview()\<close> (section 4.1).\<close>

record Overview =
  ov_total_paid :: rat
  ov_total_claims :: nat
  ov_total_providers :: nat
  ov_total_codes :: nat
  ov_total_rows :: nat
  ov_min_month :: "string option"
  ov_max_month :: "string option"

text \<open>
  Modelled from the spec: \<open>overview()\<close> of the aggregation service, whose source is
  missing: the totals over all rows of the fact table, summed exactly.
\<close>

definition overview :: "ClaimRecord list \<Rightarrow> Overview" where
  "overview rows =
     \<lparr>ov_total_paid = sum_list (map paid_amount rows),
      ov_total_claims = sum_list (map claim_count rows),
      ov_total_providers = length (remdups (map billing_provider rows)),
      ov_total_codes = length (remdups (map procedure_code rows)),
      ov_total_rows = length rows,
      ov_min_month = (if rows = [] then None else Some (hd (sort (map cr_month rows)))),
      ov_max_month = (if rows = [] then None else Some (last (sort (map cr_month rows))))\<rparr>"

text \<open>Modelled from the spec: the optional date-range bounds of an operation.\<close>

definition in_bounds :: "string option \<Rightarrow> string option \<Rightarrow> string \<Rightarrow> bool" where
  "in_bounds start end m =
     ((case start of None \<Rightarrow> True | Some s \<Rightarrow> s \<le> m) \<and>
      (case end of None \<Rightarrow> True | Some e \<Rightarrow> m \<le> e))"

text \<open>Modelled from the spec: the aggregate of the rows of one month.\<close>

definition month_point :: "string \<Rightarrow> ClaimRecord list \<Rightarrow> MonthlyTrend" where
  "month_point m rows =
     \<lparr>mt_month = m,
      mt_total_paid = sum_list (map paid_amount rows),
      mt_total_claims = sum_list (map claim_count rows),
      mt_active_providers = length (remdups (map billing_provider rows)),
      mt_total_beneficiaries = sum_list (map beneficiary_count rows)\<rparr>"

text \<open>
  Modelled from the spec: \<open>trends(start?, end?)\<close> of the aggregation service, whose
  source is missing: one grouped aggregation over the rows within the bounds, a point for
  each month that has rows, by month ascending (months without activity are omitted).
\<close>

definition trends :: "string option \<Rightarrow> string option \<Rightarrow> ClaimRecord list \<Rightarrow> MonthlyTrend list" where
  "trends start end rows =
     (let selected = filter (\<lambda>r. in_bounds start end (cr_month r)) rows
      in map (\<lambda>m. month_point m (filter (\<lambda>r. cr_month r = m) selected))
             (sort (remdups (map cr_month selected))))"

text \<open>A fact table of three rows in two months.\<close>

definition example_rows :: "ClaimRecord list" where
  "example_rows =
     [\<lparr>billing_provider = ''P1'', servicing_provider = ''P1'', procedure_code = ''X'',
       cr_month = ''2023-02'', beneficiary_count = 1, claim_count = 2, paid_amount = 100\<rparr>,
      \<lparr>billing_provider = ''P2'', servicing_provider = ''P2'', procedure_code = ''X'',
       cr_month = ''2023-01'', beneficiary_count = 3, claim_count = 4, paid_amount = 1 / 10\<rparr>,
      \<lparr>billing_provider = ''P1'', servicing_provider = ''P1'', procedure_code = ''Y'',
       cr_month = ''2023-02'', beneficiary_count = 5, claim_count = 6, paid_amount = 2 / 10\<rparr>]"

section \<open>The anomaly detector\<close>

text \<open>
  Modelled from the spec: the mean of a code's population (section 4.2). The population is
  the list of the totals (paid, or claims) of the providers that billed the code.
\<close>

definition mean :: "real list \<Rightarrow> real" where
  "mean population = sum_list population / of_nat (length population)"

text \<open>
  Modelled from the spec: the sample variance of a population, taken as 0 for a population
  of size 1 (and for the empty one), for which the spec has the deviation 0.
\<close>

definition sample_variance :: "real list \<Rightarrow> real" where
  "sample_variance population =
     (if length population \<le> 1 then 0
      else sum_list (map (\<lambda>x. (x - mean population)\<^sup>2) population)
             / of_nat (length population - 1))"

text \<open>Modelled from the spec: the sample standard deviation of a population.\<close>

definition sample_sd :: "real list \<Rightarrow> real" where
  "sample_sd population = sqrt (sample_variance population)"

text \<open>
  Modelled from the spec: a z-score as a floating-point result, which a division by zero
  would make infinite or not a number.
\<close>

datatype zvalue = Finite real | Infinite | NotANumber

text \<open>
  Modelled from the spec: the z-score of the anomaly detector, whose source is missing:
  \<open>z = (provider_total - \<mu>) / \<sigma>\<close>, and the policy for \<open>\<sigma> = 0\<close>, where the
  z-score is defined as 0.
\<close>

definition z_score :: "real list \<Rightarrow> real \<Rightarrow> zvalue" where
  "z_score population provider_total =
     (if sample_sd population = 0 then Finite 0
      else Finite ((provider_total - mean population) / sample_sd population))"

text \<open>Modelled from the spec: the z-scores assigned to the members of a population.\<close>

definition population_z_scores :: "real list \<Rightarrow> zvalue list" where
  "population_z_scores population = map (z_score population) population"

section \<open>The query guard\<close>

text \<open>
  Modelled from the spec: a statement of a candidate (section 4.3 and the design notes).
  The guard is a rule set over the candidate's statements (statement count, verbs, tables,
  row limit), independent of the query dialect; a statement is given by its text, the verbs
  it contains, the tables and views it references and its explicit row limit, if it has
  one.
\<close>

record statement =
  st_text :: string
  st_verbs :: "string list"
  st_tables :: "string list"
  st_limit :: "nat option"

text \<open>
  Modelled from the spec: a candidate query string, given by the statements it splits into
  at the terminator.
\<close>

type_synonym candidate = "statement list"

text \<open>Modelled from the spec: the structured rejection reasons.\<close>

datatype rejection =
    NoStatement
  | MultipleStatements nat
  | WriteVerb string
  | TableNotAllowed string

text \<open>Modelled from the spec: the default cap, ``e.g., 1000 rows''.\<close>

definition default_cap :: nat where
  "default_cap = 1000"

text \<open>Modelled from the spec: the injection of the default cap into a statement.\<close>

definition inject_limit :: "statement \<Rightarrow> statement" where
  "inject_limit s =
     (case st_limit s of
        Some n \<Rightarrow> s
      | None \<Rightarrow> s\<lparr>st_text := st_text s @ '' LIMIT 1000'', st_limit := Some default_cap\<rparr>)"

text \<open>
  Modelled from the spec: the Query Guard, whose source is missing: its checks, all of
  which must pass. The data-definition and data-modification verbs and the whitelist of
  the exposed schema are parameters. The timeout around the execution is not part of this
  model.
\<close>

definition query_guard :: "string list \<Rightarrow> string list \<Rightarrow> candidate \<Rightarrow> rejection + statement" where
  "query_guard write_verbs whitelist cand =
     (case cand of
        [] \<Rightarrow> Inl NoStatement
      | [s] \<Rightarrow>
          (case find (\<lambda>v. v \<in> set write_verbs) (st_verbs s) of
             Some v \<Rightarrow> Inl (WriteVerb v)
           | None \<Rightarrow>
               (case find (\<lambda>t. t \<notin> set whitelist) (st_tables s) of
                  Some t \<Rightarrow> Inl (TableNotAllowed t)
                | None \<Rightarrow> Inr (inject_limit s)))
      | s # s' # rest \<Rightarrow> Inl (MultipleStatements (length cand)))"

text \<open>Verbs, a whitelist and candidates for examples.\<close>

definition example_verbs :: "string list" where
  "example_verbs = [''INSERT'', ''UPDATE'', ''DELETE'', ''CREATE'', ''ALTER'', ''DROP'']"

definition example_whitelist :: "string list" where
  "example_whitelist = [''claims'', ''providers'', ''codes'']"

definition example_select :: statement where
  "example_select =
     \<lparr>st_text = ''SELECT * FROM claims'', st_verbs = [''SELECT''],
      st_tables = [''claims''], st_limit = None\<rparr>"

definition example_drop :: statement where
  "example_drop =
     \<lparr>st_text = ''DROP TABLE claims'', st_verbs = [''DROP''],
      st_tables = [''claims''], st_limit = None\<rparr>"

definition example_foreign :: statement where
  "example_foreign =
     \<lparr>st_text = ''SELECT * FROM secrets LIMIT 5'', st_verbs = [''SELECT''],
      st_tables = [''secrets''], st_limit = Some 5\<rparr>"

section \<open>Properties of the Chat page\<close>


lemma begin_blocked:
  "messageText text st = [] \<or> loading st \<Longrightarrow> handleSend_begin text st = (st, None)"
  by (auto simp: handleSend_begin_def Let_def)








text \<open>
  C4. When the request of a chat send fails, the transcript afterwards is the transcript
  before, then the user's message, then one assistant message with the error text
  ``Failed to get response. Please try again.'' and an empty narrative. The earlier messages
  are unchanged, the assistant message is the only one appended, and \<open>loading\<close> is
  cleared. The assistant message renders as the error line alone.
\<close>

theorem handleSend_failure:
  assumes "\<not> loading st" and "messageText text st \<noteq> []"
    and "sendChatMessage (messageText text st) (map history_turn (messages st)) = Failed"
  shows "handleSend sendChatMessage duration text st
           = st\<lparr>messages := messages st @ [userMsg (messageText text st), errorMsg],
                input := [], loading := False\<rparr>
         \<and> take (length (messages st)) (messages (handleSend sendChatMessage duration text st))
             = messages st
         \<and> filter (\<lambda>m. m ''role'' = Some (JStr ''assistant''))
             (drop (length (messages st)) (messages (handleSend sendChatMessage duration text st)))
             = [errorMsg]
         \<and> errorMsg ''error'' = Some (JStr ''Failed to get response. Please try again.'')
         \<and> errorMsg ''narrative'' = Some (JStr '''')
         \<and> ChatMessage errorMsg = [ErrorEl (JStr ''Failed to get response. Please try again.'')]"
proof -
  have h: "handleSend sendChatMessage duration text st
           = st\<lparr>messages := messages st @ [userMsg (messageText text st), errorMsg],
                input := [], loading := False\<rparr>"
    using assms by (simp add: handleSend_def handleSend_begin_def handleSend_settle_def Let_def)
  have u: "userMsg (messageText text st) ''role'' \<noteq> Some (JStr ''assistant'')"
    by (simp add: userMsg_def)
  have e: "errorMsg ''role'' = Some (JStr ''assistant'')" by (simp add: errorMsg_def)
  have r: "ChatMessage errorMsg = [ErrorEl (JStr ''Failed to get response. Please try again.'')]"
    by (simp add: ChatMessage_def shown_def Let_def errorMsg_def)
  have f: "filter (\<lambda>m. m ''role'' = Some (JStr ''assistant''))
             [userMsg (messageText text st), errorMsg] = [errorMsg]"
    using u e by simp
  have n: "errorMsg ''error'' = Some (JStr ''Failed to get response. Please try again.'')"
    "errorMsg ''narrative'' = Some (JStr '''')"
    by (simp_all add: errorMsg_def)
  show ?thesis unfolding h using f n r by simp
qed

lemma example_text: "messageText None example_chat = ''second''"
  by (simp add: messageText_def example_chat_def js_trim_def is_ws_def)

theorem handleSend_failure_witness:
  "\<not> loading example_chat \<and> messageText None example_chat \<noteq> [] \<and>
   handleSend (\<lambda>message history. Failed) ''1.0'' None example_chat
     = example_chat\<lparr>messages := messages example_chat @ [userMsg ''second'', errorMsg],
                     input := [], loading := False\<rparr>"
proof -
  have a: "\<not> loading example_chat" by (simp add: example_chat_def)
  have b: "messageText None example_chat \<noteq> []" by (simp add: example_text)
  from handleSend_failure [OF a b, of "\<lambda>message history. Failed" "''1.0''"] a b
  show ?thesis by (simp add: example_text)
qed

text \<open>
  C6 as stated fails: the assistant turn of the example transcript has a query, result rows,
  a visualization kind and a narrative, and the turn placed for it in the history of the
  next request has none of these fields.
\<close>

theorem history_omits_query_counterexample:
  "(messages example_chat ! 1) ''sql'' = Some (JStr ''SELECT 1'') \<and>
   (messages example_chat ! 1) ''results'' = Some (JArr []) \<and>
   (messages example_chat ! 1) ''visualization'' = Some (JStr ''table'') \<and>
   (messages example_chat ! 1) ''narrative'' = Some (JStr ''No rows.'') \<and>
   (sent_history None example_chat ! 1) ''role'' = Some (JStr ''assistant'') \<and>
   (sent_history None example_chat ! 1) ''sql'' = None \<and>
   (sent_history None example_chat ! 1) ''results'' = None \<and>
   (sent_history None example_chat ! 1) ''visualization'' = None \<and>
   (sent_history None example_chat ! 1) ''narrative'' = None"
proof -
  have h: "sent_history None example_chat = map history_turn (messages example_chat)"
    by (simp add: sent_history_def handleSend_begin_def Let_def example_text)
       (simp add: example_chat_def)
  have m: "messages example_chat ! 1 = aiMsg ''0.5'' example_result"
    by (simp add: example_chat_def)
  show ?thesis unfolding h
    by (simp add: example_chat_def aiMsg_def example_result_def history_turn_def js_or_def)
qed

lemma history_turn_role: "history_turn m ''role'' = m ''role''"
  by (simp add: history_turn_def)

lemma history_turn_content:
  "history_turn m ''content'' =
     (if m ''role'' = Some (JStr ''user'') then m ''content''
      else if truthy (m ''narrative'') then m ''narrative''
      else if truthy (m ''content'') then m ''content''
      else Some (JStr ''''))"
  by (simp add: history_turn_def js_or_def)

lemma history_turn_other: "k \<noteq> ''role'' \<Longrightarrow> k \<noteq> ''content'' \<Longrightarrow> history_turn m k = None"
  by (simp add: history_turn_def)

lemma history_turn_dom: "dom (history_turn m) \<subseteq> {''role'', ''content''}"
proof (rule subsetI)
  fix k assume a: "k \<in> dom (history_turn m)"
  show "k \<in> {''role'', ''content''}"
  proof (rule ccontr)
    assume "k \<notin> {''role'', ''content''}"
    then have "k \<noteq> ''role''" and "k \<noteq> ''content''" by simp_all
    then have "history_turn m k = None" by (rule history_turn_other)
    with a show False by (simp add: dom_def)
  qed
qed

lemma begin_request:
  assumes "handleSend_begin text st = (st1, Some (message, history))"
  shows "history = map history_turn (messages st)"
proof -
  have s: "snd (handleSend_begin text st) = Some (message, history)"
    by (simp only: assms snd_conv)
  show ?thesis
  proof (cases "messageText text st = [] \<or> loading st")
    case True
    have "snd (handleSend_begin text st) = None"
      by (simp only: begin_blocked [OF True] snd_conv)
    with s have "Some (message, history) = None" by (rule trans [OF sym])
    then show ?thesis by (simp only: option.distinct)
  next
    case False
    then have "snd (handleSend_begin text st)
                 = Some (messageText text st, map history_turn (messages st))"
      by (simp add: handleSend_begin_def Let_def)
    with s have "Some (message, history) = Some (messageText text st, map history_turn (messages st))"
      by (rule trans [OF sym])
    then show ?thesis by (simp only: option.inject prod.inject)
  qed
qed

text \<open>
  C6, amended. The history of a request has one turn for each message of the transcript, in
  order. A turn carries the message's role and a content, and no other field: the content
  of a user turn is its text, the content of any other turn is its narrative, or its content
  when the narrative is empty, or the empty string.
\<close>

theorem history_role_and_content_only:
  assumes "handleSend_begin text st = (st1, Some (message, history))"
  shows "length history = length (messages st) \<and>
         (\<forall>i<length history.
            (history ! i) ''role'' = (messages st ! i) ''role'' \<and>
            (history ! i) ''content'' =
              (if (messages st ! i) ''role'' = Some (JStr ''user'') then (messages st ! i) ''content''
               else if truthy ((messages st ! i) ''narrative'') then (messages st ! i) ''narrative''
               else if truthy ((messages st ! i) ''content'') then (messages st ! i) ''content''
               else Some (JStr '''')) \<and>
            dom (history ! i) \<subseteq> {''role'', ''content''})"
proof -
  have h: "history = map history_turn (messages st)"
    using assms by (rule begin_request)
  have n: "history ! i = history_turn (messages st ! i)" if "i < length history" for i
    using that unfolding h by simp
  have l: "length history = length (messages st)" unfolding h by simp
  show ?thesis
  proof (intro conjI allI impI)
    show "length history = length (messages st)" by (rule l)
  next
    fix i assume "i < length history"
    then show "(history ! i) ''role'' = (messages st ! i) ''role''"
      by (simp only: n history_turn_role)
  next
    fix i assume "i < length history"
    then show "(history ! i) ''content'' =
              (if (messages st ! i) ''role'' = Some (JStr ''user'') then (messages st ! i) ''content''
               else if truthy ((messages st ! i) ''narrative'') then (messages st ! i) ''narrative''
               else if truthy ((messages st ! i) ''content'') then (messages st ! i) ''content''
               else Some (JStr ''''))"
      by (simp only: n history_turn_content)
  next
    fix i assume "i < length history"
    then show "dom (history ! i) \<subseteq> {''role'', ''content''}"
      by (simp only: n history_turn_dom)
  qed
qed

theorem history_role_and_content_only_witness:
  "handleSend_begin None example_chat
     = (example_chat\<lparr>messages := messages example_chat @ [userMsg ''second''],
                      input := [], loading := True\<rparr>,
        Some (''second'', map history_turn (messages example_chat))) \<and>
   length (map history_turn (messages example_chat)) = 2 \<and>
   (map history_turn (messages example_chat) ! 1) ''content'' = Some (JStr ''No rows.'') \<and>
   dom (map history_turn (messages example_chat) ! 1) \<subseteq> {''role'', ''content''}"
proof -
  let ?h = "map history_turn (messages example_chat)"
  have b: "handleSend_begin None example_chat
     = (example_chat\<lparr>messages := messages example_chat @ [userMsg ''second''],
                      input := [], loading := True\<rparr>,
        Some (''second'', ?h))"
    by (simp add: handleSend_begin_def Let_def example_text) (simp add: example_chat_def)
  have n: "(messages example_chat ! 1) ''narrative'' = Some (JStr ''No rows.'')"
    by (simp add: example_chat_def aiMsg_def example_result_def)
  have r: "(messages example_chat ! 1) ''role'' = Some (JStr ''assistant'')"
    by (simp add: example_chat_def aiMsg_def example_result_def)
  have l: "length (messages example_chat) = 2" by (simp add: example_chat_def)
  note t = history_role_and_content_only [OF b]
  from t have l2: "length ?h = 2" using l by simp
  from t have "\<forall>i<length ?h.
            (?h ! i) ''content'' =
              (if (messages example_chat ! i) ''role'' = Some (JStr ''user'')
               then (messages example_chat ! i) ''content''
               else if truthy ((messages example_chat ! i) ''narrative'')
               then (messages example_chat ! i) ''narrative''
               else if truthy ((messages example_chat ! i) ''content'')
               then (messages example_chat ! i) ''content''
               else Some (JStr '''')) \<and>
            dom (?h ! i) \<subseteq> {''role'', ''content''}"
    by blast
  moreover have "1 < length ?h" using l by simp
  ultimately have "(?h ! 1) ''content'' =
              (if (messages example_chat ! 1) ''role'' = Some (JStr ''user'')
               then (messages example_chat ! 1) ''content''
               else if truthy ((messages example_chat ! 1) ''narrative'')
               then (messages example_chat ! 1) ''narrative''
               else if truthy ((messages example_chat ! 1) ''content'')
               then (messages example_chat ! 1) ''content''
               else Some (JStr '''')) \<and>
            dom (?h ! 1) \<subseteq> {''role'', ''content''}"
    by blast
  then have "(?h ! 1) ''content'' = Some (JStr ''No rows.'') \<and> dom (?h ! 1) \<subseteq> {''role'', ''content''}"
    by (simp only: n r) simp
  with b l2 show ?thesis by blast
qed

lemma in_shown: "e \<in> set (shown c el) \<longleftrightarrow> c \<and> el = Some e"
  by (cases c; cases el) (auto simp: shown_def)

lemma ResultTable_empty: "ResultTable (Some (JArr [])) = None"
  by (simp add: ResultTable_def)

lemma ResultChart_empty: "ResultChart (Some (JArr [])) config type = None"
  by (simp add: ResultChart_def)

lemma ResultTable_rows: "ResultTable data = Some e \<Longrightarrow> shows_rows e"
  by (auto simp: ResultTable_def split: if_splits)

lemma ResultChart_rows: "ResultChart data config type = Some e \<Longrightarrow> shows_rows e"
  by (auto simp: ResultChart_def split: if_splits)

lemma ResultTable_not_error: "ResultTable data = Some e \<Longrightarrow> \<not> is_error_el e"
  by (auto simp: ResultTable_def split: if_splits)

lemma ResultChart_not_error: "ResultChart data config type = Some e \<Longrightarrow> \<not> is_error_el e"
  by (auto simp: ResultChart_def split: if_splits)

lemma ChatMessage_narrative:
  "m ''role'' \<noteq> Some (JStr ''user'') \<Longrightarrow> truthy (m ''narrative'') \<Longrightarrow>
   NarrativeEl (the (m ''narrative'')) \<in> set (ChatMessage m)"
  by (simp add: ChatMessage_def Let_def in_shown)

lemma ChatMessage_no_rows:
  assumes "m ''results'' = Some (JArr [])" and "e \<in> set (ChatMessage m)"
  shows "\<not> shows_rows e"
proof -
  have "js_first (m ''results'') = None" using assms(1) by simp
  then have f: "\<not> truthy (js_first (m ''results''))" by simp
  from assms(2) show ?thesis
    unfolding ChatMessage_def Let_def set_append Un_iff in_shown
    by (auto simp: f assms(1) ResultTable_empty ResultChart_empty)
qed

lemma ChatMessage_error:
  assumes "\<not> truthy (m ''error'')" and "e \<in> set (ChatMessage m)"
  shows "\<not> is_error_el e"
proof -
  from assms(2) show ?thesis
    unfolding ChatMessage_def Let_def set_append Un_iff in_shown
    by (auto simp: assms(1) ResultTable_not_error ResultChart_not_error)
qed

lemma aiMsg_narrative: "aiMsg duration result ''narrative'' = result ''narrative''"
  by (simp add: aiMsg_def map_add_def split: option.split)

lemma aiMsg_role:
  assumes "result ''role'' \<noteq> Some (JStr ''user'')"
  shows "aiMsg duration result ''role'' \<noteq> Some (JStr ''user'')"
proof (cases "result ''role''")
  case None
  then show ?thesis by (simp add: aiMsg_def map_add_def)
next
  case (Some r)
  with assms show ?thesis by (simp add: aiMsg_def map_add_def)
qed

lemma response_narrative:
  assumes "result ''role'' \<noteq> Some (JStr ''user'')" and "truthy (result ''narrative'')"
  shows "NarrativeEl (the (result ''narrative'')) \<in> set (ChatMessage (aiMsg duration result))"
proof -
  have "truthy (aiMsg duration result ''narrative'')"
    using assms(2) by (simp only: aiMsg_narrative)
  moreover have "aiMsg duration result ''role'' \<noteq> Some (JStr ''user'')"
    using assms(1) by (rule aiMsg_role)
  ultimately have "NarrativeEl (the (aiMsg duration result ''narrative''))
                     \<in> set (ChatMessage (aiMsg duration result))"
    by (intro ChatMessage_narrative)
  then show ?thesis by (simp only: aiMsg_narrative)
qed

text \<open>
  C5. A message that is not the user's and has a narrative shows the narrative, whatever its
  result rows are; so does the message built from a response that has a narrative. When the
  row list is empty, the table and the chart render nothing and no element displaying rows
  appears; and the error line appears only for a populated \<open>error\<close> field, so an empty
  result alone shows no error.
\<close>

theorem narrative_shown_without_rows:
  assumes "m ''role'' \<noteq> Some (JStr ''user'')" and "truthy (m ''narrative'')"
  shows "NarrativeEl (the (m ''narrative'')) \<in> set (ChatMessage m) \<and>
         (m ''results'' = Some (JArr []) \<longrightarrow>
            ResultTable (m ''results'') = None \<and>
            ResultChart (m ''results'') (m ''chart_config'') (m ''visualization'') = None \<and>
            (\<forall>e\<in>set (ChatMessage m). \<not> shows_rows e)) \<and>
         (\<not> truthy (m ''error'') \<longrightarrow> (\<forall>e\<in>set (ChatMessage m). \<not> is_error_el e)) \<and>
         (result ''role'' \<noteq> Some (JStr ''user'') \<and> truthy (result ''narrative'') \<longrightarrow>
            NarrativeEl (the (result ''narrative'')) \<in> set (ChatMessage (aiMsg duration result)))"
proof (intro conjI impI ballI)
  show "NarrativeEl (the (m ''narrative'')) \<in> set (ChatMessage m)"
    using assms by (rule ChatMessage_narrative)
next
  assume "m ''results'' = Some (JArr [])"
  then show "ResultTable (m ''results'') = None" by (simp only: ResultTable_empty)
next
  assume "m ''results'' = Some (JArr [])"
  then show "ResultChart (m ''results'') (m ''chart_config'') (m ''visualization'') = None"
    by (simp only: ResultChart_empty)
next
  fix e assume "m ''results'' = Some (JArr [])" and "e \<in> set (ChatMessage m)"
  then show "\<not> shows_rows e" by (rule ChatMessage_no_rows)
next
  fix e assume "\<not> truthy (m ''error'')" and "e \<in> set (ChatMessage m)"
  then show "\<not> is_error_el e" by (rule ChatMessage_error)
next
  assume "result ''role'' \<noteq> Some (JStr ''user'') \<and> truthy (result ''narrative'')"
  then show "NarrativeEl (the (result ''narrative'')) \<in> set (ChatMessage (aiMsg duration result))"
    using response_narrative by blast
qed

theorem narrative_shown_without_rows_witness:
  "aiMsg ''0.5'' example_result ''role'' \<noteq> Some (JStr ''user'') \<and>
   truthy (aiMsg ''0.5'' example_result ''narrative'') \<and>
   aiMsg ''0.5'' example_result ''results'' = Some (JArr []) \<and>
   \<not> truthy (aiMsg ''0.5'' example_result ''error'') \<and>
   ChatMessage (aiMsg ''0.5'' example_result)
     = [SqlEl (JStr ''SELECT 1''), NarrativeEl (JStr ''No rows.''), ElapsedEl (JStr ''0.5s'')]"
proof -
  have a: "aiMsg ''0.5'' example_result ''role'' \<noteq> Some (JStr ''user'')"
    by (simp add: aiMsg_def example_result_def)
  have b: "truthy (aiMsg ''0.5'' example_result ''narrative'')"
    by (simp add: aiMsg_def example_result_def)
  have c: "aiMsg ''0.5'' example_result ''results'' = Some (JArr [])"
    by (simp add: aiMsg_def example_result_def)
  have d: "\<not> truthy (aiMsg ''0.5'' example_result ''error'')"
    by (simp add: aiMsg_def example_result_def)
  have e: "ChatMessage (aiMsg ''0.5'' example_result)
     = [SqlEl (JStr ''SELECT 1''), NarrativeEl (JStr ''No rows.''), ElapsedEl (JStr ''0.5s'')]"
    by (simp add: ChatMessage_def shown_def ResultTable_def ResultChart_def Let_def
          aiMsg_def example_result_def)
  from narrative_shown_without_rows [OF a b] a b c d e show ?thesis by simp
qed

section \<open>Properties of the API client\<close>

text \<open>
  C7 as stated fails: called with the empty string as code filter, \<open>fetchAnomalies\<close>
  issues a request without \<open>hcpcs_code\<close>, the same request as with no filter argument.
\<close>

theorem fetchAnomalies_empty_code_counterexample:
  "req_query (fetchAnomalies integer_toString (Some 50) (Some 5) (Some ''''))
     = [(''limit'', ''50''), (''min_z_score'', ''5'')]"
  by code_simp

text \<open>
  C7, amended. Every call of \<open>fetchAnomalies\<close> issues GET \<open>/api/anomalies\<close> with the
  parameters \<open>limit\<close> and \<open>min_z_score\<close>, the stringified arguments (50 and 5 when left
  out), in this order, followed by \<open>hcpcs_code\<close> exactly when the code filter argument is a
  non-empty string; there is no other parameter.
\<close>

theorem fetchAnomalies_request:
  "req_method (fetchAnomalies toString l z h) = ''GET'' \<and>
   req_path (fetchAnomalies toString l z h) = ''/api/anomalies'' \<and>
   req_query (fetchAnomalies toString l z h)
     = [(''limit'', toString (case l of None \<Rightarrow> 50 | Some x \<Rightarrow> x)),
        (''min_z_score'', toString (case z of None \<Rightarrow> 5 | Some x \<Rightarrow> x))]
       @ (case h of None \<Rightarrow> [] | Some c \<Rightarrow> if c = [] then [] else [(''hcpcs_code'', c)]) \<and>
   (''hcpcs_code'' \<in> fst ` set (req_query (fetchAnomalies toString l z h))
      \<longleftrightarrow> (\<exists>c. h = Some c \<and> c \<noteq> []))"
  by (cases h) (auto simp: fetchAnomalies_def API_BASE_def Let_def)

theorem fetchAnomalies_request_witness:
  "request_url (fetchAnomalies integer_toString None None (Some ''97153''))
     = ''/api/anomalies?limit=50&min_z_score=5&hcpcs_code=97153'' \<and>
   req_query (fetchAnomalies integer_toString None None (Some ''97153''))
     = [(''limit'', ''50''), (''min_z_score'', ''5''), (''hcpcs_code'', ''97153'')] \<and>
   req_query (fetchAnomalies integer_toString (Some 25) (Some 3) None)
     = [(''limit'', ''25''), (''min_z_score'', ''3'')]"
proof -
  have d: "integer_toString 50 = ''50''" "integer_toString 5 = ''5''"
    "integer_toString 25 = ''25''" "integer_toString 3 = ''3''"
    by code_simp+
  have u: "request_url (fetchAnomalies integer_toString None None (Some ''97153''))
     = ''/api/anomalies?limit=50&min_z_score=5&hcpcs_code=97153''"
    by code_simp
  from fetchAnomalies_request [of integer_toString None None "Some ''97153''"]
       fetchAnomalies_request [of integer_toString "Some 25" "Some 3" None]
  have "req_query (fetchAnomalies integer_toString None None (Some ''97153''))
     = [(''limit'', ''50''), (''min_z_score'', ''5''), (''hcpcs_code'', ''97153'')] \<and>
   req_query (fetchAnomalies integer_toString (Some 25) (Some 3) None)
     = [(''limit'', ''25''), (''min_z_score'', ''3'')]"
    by (simp add: d)
  with u show ?thesis by blast
qed

text \<open>
  C9. \<open>formatCurrency\<close> returns a string for every number and for \<open>null\<close> and
  \<open>undefined\<close>: \<open>$0\<close> for the latter two; from \<open>10^9\<close> on the value divided by \<open>10^9\<close>
  with 2 decimals and the suffix B; else from \<open>10^6\<close> on 1 decimal and M; else from
  \<open>10^3\<close> on 0 decimals and K; else the value with 2 decimals. The result always begins
  with \<open>$\<close>.
\<close>

theorem formatCurrency_cases:
  "formatCurrency toFixed None = ''$0'' \<and>
   (10 ^ 9 \<le> v \<longrightarrow> formatCurrency toFixed (Some v) = ''$'' @ toFixed (v / 10 ^ 9) 2 @ ''B'') \<and>
   (10 ^ 6 \<le> v \<and> v < 10 ^ 9 \<longrightarrow>
      formatCurrency toFixed (Some v) = ''$'' @ toFixed (v / 10 ^ 6) 1 @ ''M'') \<and>
   (10 ^ 3 \<le> v \<and> v < 10 ^ 6 \<longrightarrow>
      formatCurrency toFixed (Some v) = ''$'' @ toFixed (v / 10 ^ 3) 0 @ ''K'') \<and>
   (v < 10 ^ 3 \<longrightarrow> formatCurrency toFixed (Some v) = ''$'' @ toFixed v 2) \<and>
   (\<exists>rest. formatCurrency toFixed a = CHR ''$'' # rest)"
proof -
  have "\<exists>rest. formatCurrency toFixed a = CHR ''$'' # rest"
    by (cases a) (simp_all add: formatCurrency_def)
  then show ?thesis by (simp add: formatCurrency_def)
qed

theorem formatCurrency_cases_witness:
  "(10 ^ 9 \<le> (1234567890 :: rat) \<and>
      formatCurrency toFixed_fixed (Some 1234567890)
        = ''$'' @ toFixed_fixed (1234567890 / 10 ^ 9) 2 @ ''B'' \<and>
      formatCurrency toFixed_fixed (Some 1234567890) = ''$1.23B'') \<and>
   (10 ^ 6 \<le> (2500000 :: rat) \<and> (2500000 :: rat) < 10 ^ 9 \<and>
      formatCurrency toFixed_fixed (Some 2500000)
        = ''$'' @ toFixed_fixed (2500000 / 10 ^ 6) 1 @ ''M'' \<and>
      formatCurrency toFixed_fixed (Some 2500000) = ''$2.5M'') \<and>
   (10 ^ 3 \<le> (1500 :: rat) \<and> (1500 :: rat) < 10 ^ 6 \<and>
      formatCurrency toFixed_fixed (Some 1500)
        = ''$'' @ toFixed_fixed (1500 / 10 ^ 3) 0 @ ''K'' \<and>
      formatCurrency toFixed_fixed (Some 1500) = ''$2K'') \<and>
   ((1 / 8 :: rat) < 10 ^ 3 \<and>
      formatCurrency toFixed_fixed (Some (1 / 8)) = ''$'' @ toFixed_fixed (1 / 8) 2 \<and>
      formatCurrency toFixed_fixed (Some (1 / 8)) = ''$0.13'') \<and>
   formatCurrency toFixed_fixed None = ''$0''"
proof -
  have h1: "10 ^ 9 \<le> (1234567890 :: rat)" by simp
  have h2: "10 ^ 6 \<le> (2500000 :: rat) \<and> (2500000 :: rat) < 10 ^ 9" by simp
  have h3: "10 ^ 3 \<le> (1500 :: rat) \<and> (1500 :: rat) < 10 ^ 6" by simp
  have h4: "(1 / 8 :: rat) < 10 ^ 3" by simp
  have c1: "formatCurrency toFixed_fixed (Some 1234567890) = ''$1.23B''" by code_simp
  have c2: "formatCurrency toFixed_fixed (Some 2500000) = ''$2.5M''" by code_simp
  have c3: "formatCurrency toFixed_fixed (Some 1500) = ''$2K''" by code_simp
  have c4: "formatCurrency toFixed_fixed (Some (1 / 8)) = ''$0.13''" by code_simp
  from formatCurrency_cases [of toFixed_fixed 1234567890] h1
  have t1: "formatCurrency toFixed_fixed (Some 1234567890)
        = ''$'' @ toFixed_fixed (1234567890 / 10 ^ 9) 2 @ ''B''" by blast
  from formatCurrency_cases [of toFixed_fixed 2500000] h2
  have t2: "formatCurrency toFixed_fixed (Some 2500000)
        = ''$'' @ toFixed_fixed (2500000 / 10 ^ 6) 1 @ ''M''" by blast
  from formatCurrency_cases [of toFixed_fixed 1500] h3
  have t3: "formatCurrency toFixed_fixed (Some 1500)
        = ''$'' @ toFixed_fixed (1500 / 10 ^ 3) 0 @ ''K''" by blast
  from formatCurrency_cases [of toFixed_fixed "1 / 8"] h4
  have t4: "formatCurrency toFixed_fixed (Some (1 / 8)) = ''$'' @ toFixed_fixed (1 / 8) 2"
    by blast
  from formatCurrency_cases [of toFixed_fixed]
  have t5: "formatCurrency toFixed_fixed None = ''$0''" by blast
  from h1 h2 h3 h4 c1 c2 c3 c4 t1 t2 t3 t4 t5 show ?thesis by blast
qed

section \<open>Properties of the Trends page\<close>

lemma map_of_update_property:
  "map_of (update_property y f xs) k'
     = (if k' = y then map_option f (map_of xs y) else map_of xs k')"
  unfolding update_property_def by (induction xs) auto

lemma map_fst_update_property: "map fst (update_property y f xs) = map fst xs"
  unfolding update_property_def by (induction xs) auto

lemma yearly_step_keys:
  "map fst (yearly_step t yd)
     = (if map_of yd (year_of t) = None then map fst yd @ [year_of t] else map fst yd)"
  by (simp add: yearly_step_def Let_def map_fst_update_property)

lemma yearly_step_distinct:
  assumes "distinct (map fst yd)"
  shows "distinct (map fst (yearly_step t yd))"
proof (cases "map_of yd (year_of t) = None")
  case True
  then have n: "year_of t \<notin> set (map fst yd)" by (simp add: map_of_eq_None_iff)
  from True have "map fst (yearly_step t yd) = map fst yd @ [year_of t]"
    by (simp add: yearly_step_keys)
  with assms n show ?thesis by simp
next
  case False
  then have "map fst (yearly_step t yd) = map fst yd"
    by (simp only: yearly_step_keys if_False)
  with assms show ?thesis by simp
qed

lemma yearly_step_other:
  assumes "k \<noteq> year_of t"
  shows "map_of (yearly_step t yd) k = map_of yd k"
proof -
  have "map_of (yd @ [(year_of t, v)]) k = map_of yd k" for v
    using assms by (simp add: map_add_def split: option.split)
  then show ?thesis
    using assms by (simp add: yearly_step_def Let_def map_of_update_property)
qed

lemma yearly_step_new:
  "map_of yd (year_of t) = None \<Longrightarrow>
   map_of (yearly_step t yd) (year_of t)
     = Some \<lparr>year = year_of t, spending = total_paid t, claims = total_claims t, months = 1\<rparr>"
  by (simp add: yearly_step_def Let_def map_of_update_property map_add_def)

lemma yearly_step_old:
  "map_of yd (year_of t) = Some v \<Longrightarrow>
   map_of (yearly_step t yd) (year_of t)
     = Some (v\<lparr>spending := spending v + total_paid t,
               claims := claims v + total_claims t,
               months := months v + 1\<rparr>)"
  by (simp add: yearly_step_def Let_def map_of_update_property map_add_def)

lemma fold_yearly_distinct:
  "distinct (map fst yd) \<Longrightarrow> distinct (map fst (fold yearly_step ts yd))"
  by (induction ts arbitrary: yd) (simp_all add: yearly_step_distinct)

lemma yearly_step_present: "map_of (yearly_step t yd) (year_of t) \<noteq> None"
  by (cases "map_of yd (year_of t)") (simp_all add: yearly_step_new yearly_step_old)

lemma fold_yearly_none:
  "map_of (fold yearly_step ts yd) k = None \<longleftrightarrow> map_of yd k = None \<and> k \<notin> year_of ` set ts"
proof (induction ts arbitrary: yd)
  case Nil
  show ?case by simp
next
  case (Cons t ts)
  show ?case
  proof (cases "k = year_of t")
    case True
    have "map_of (yearly_step t yd) k \<noteq> None"
      unfolding True by (rule yearly_step_present)
    then have "map_of (fold yearly_step ts (yearly_step t yd)) k \<noteq> None"
      unfolding Cons.IH [of "yearly_step t yd"] by blast
    moreover have "k \<in> year_of ` set (t # ts)" unfolding True by simp
    ultimately show ?thesis by simp
  next
    case False
    then show ?thesis by (simp add: Cons.IH yearly_step_other)
  qed
qed

lemma fold_yearly_fields:
  "map_of (fold yearly_step ts yd) k = Some v \<Longrightarrow>
   months v = (case map_of yd k of None \<Rightarrow> 0 | Some u \<Rightarrow> months u)
                + length (filter (\<lambda>t. year_of t = k) ts) \<and>
   spending v = (case map_of yd k of None \<Rightarrow> 0 | Some u \<Rightarrow> spending u)
                  + sum_list (map total_paid (filter (\<lambda>t. year_of t = k) ts)) \<and>
   year v = (case map_of yd k of None \<Rightarrow> k | Some u \<Rightarrow> year u)"
proof (induction ts arbitrary: yd)
  case Nil
  then show ?case by simp
next
  case (Cons t ts)
  from Cons.prems have p: "map_of (fold yearly_step ts (yearly_step t yd)) k = Some v" by simp
  note ih = Cons.IH [OF p]
  show ?case
  proof (cases "k = year_of t")
    case False
    with ih show ?thesis by (simp add: yearly_step_other)
  next
    case True
    show ?thesis
    proof (cases "map_of yd (year_of t)")
      case None
      from ih show ?thesis
        unfolding True yearly_step_new [OF None] by (simp add: None)
    next
      case (Some u)
      from ih show ?thesis
        unfolding True yearly_step_old [OF Some] by (simp add: Some)
    qed
  qed
qed

lemma yearlyData_distinct: "distinct (map fst (yearlyData ts))"
  unfolding yearlyData_def by (rule fold_yearly_distinct) simp

lemma yearlyData_fields:
  assumes "(k, v) \<in> set (yearlyData ts)"
  shows "months v = length (filter (\<lambda>t. year_of t = k) ts) \<and>
         spending v = sum_list (map total_paid (filter (\<lambda>t. year_of t = k) ts)) \<and>
         year v = k"
proof -
  from assms have "map_of (yearlyData ts) k = Some v"
    using yearlyData_distinct by simp
  then have "map_of (fold yearly_step ts []) k = Some v" by (simp only: yearlyData_def)
  from fold_yearly_fields [OF this] show ?thesis by simp
qed

lemma yearlyData_keys: "fst ` set (yearlyData ts) = year_of ` set ts"
proof -
  have "k \<in> fst ` set (yearlyData ts) \<longleftrightarrow> k \<in> year_of ` set ts" for k
  proof -
    have "k \<notin> fst ` set (yearlyData ts) \<longleftrightarrow> map_of (yearlyData ts) k = None"
      by (simp only: map_of_eq_None_iff)
    also have "\<dots> \<longleftrightarrow> k \<notin> year_of ` set ts"
      unfolding yearlyData_def fold_yearly_none by simp
    finally show ?thesis by simp
  qed
  then show ?thesis by (intro set_eqI)
qed

lemma set_Object_values: "set (Object_values ob) = snd ` set ob"
proof -
  have "set ob = {p \<in> set ob. is_array_index (fst p)} \<union> {p \<in> set ob. \<not> is_array_index (fst p)}"
    by blast
  then have "snd ` set ob
      = snd ` {p \<in> set ob. is_array_index (fst p)} \<union> snd ` {p \<in> set ob. \<not> is_array_index (fst p)}"
    by (metis image_Un)
  then show ?thesis by (simp add: Object_values_def)
qed

lemma map_year_snd:
  assumes "\<forall>p\<in>set xs. year (snd p) = fst p"
  shows "map year (map snd xs) = map fst xs"
  using assms by (induction xs) simp_all

lemma distinct_fst_sort_key:
  "distinct (map fst (sort_key f xs)) \<longleftrightarrow> distinct (map fst xs)"
  by (simp add: distinct_map)

lemma Object_values_years:
  assumes "\<forall>p\<in>set ob. year (snd p) = fst p"
  shows "map year (Object_values ob)
     = map fst (sort_key (\<lambda>p. digits_value (fst p)) (filter (\<lambda>p. is_array_index (fst p)) ob))
       @ map fst (filter (\<lambda>p. \<not> is_array_index (fst p)) ob)"
proof -
  have a: "\<forall>p\<in>set (sort_key (\<lambda>p. digits_value (fst p)) (filter (\<lambda>p. is_array_index (fst p)) ob)).
             year (snd p) = fst p"
    using assms by simp
  have b: "\<forall>p\<in>set (filter (\<lambda>p. \<not> is_array_index (fst p)) ob). year (snd p) = fst p"
    using assms by simp
  show ?thesis
    unfolding Object_values_def map_append map_year_snd [OF a] map_year_snd [OF b] ..
qed

lemma Object_values_distinct:
  assumes "\<forall>p\<in>set ob. year (snd p) = fst p" and "distinct (map fst ob)"
  shows "distinct (map year (Object_values ob))"
proof -
  have d1: "distinct (map fst (filter (\<lambda>p. is_array_index (fst p)) ob))"
    using assms(2) by (rule distinct_map_filter)
  have d2: "distinct (map fst (filter (\<lambda>p. \<not> is_array_index (fst p)) ob))"
    using assms(2) by (rule distinct_map_filter)
  have d3: "fst ` {p \<in> set ob. is_array_index (fst p)} \<inter> fst ` {p \<in> set ob. \<not> is_array_index (fst p)} = {}"
    by auto
  show ?thesis
    unfolding Object_values_years [OF assms(1)]
    using d1 d2 d3 by (simp add: distinct_fst_sort_key)
qed

lemma Object_values_sorted:
  assumes "\<forall>p\<in>set ob. year (snd p) = fst p" and "\<forall>p\<in>set ob. is_array_index (fst p)"
  shows "sorted (map (\<lambda>y. digits_value (year y)) (Object_values ob))"
proof -
  have f1: "filter (\<lambda>p. is_array_index (fst p)) ob = ob" using assms(2) by simp
  have f2: "filter (\<lambda>p. \<not> is_array_index (fst p)) ob = []" using assms(2) by simp
  have "map (\<lambda>y. digits_value (year y)) (Object_values ob)
          = map digits_value (map year (Object_values ob))" by simp
  also have "\<dots> = map digits_value (map fst (sort_key (\<lambda>p. digits_value (fst p)) ob))"
    unfolding Object_values_years [OF assms(1)] f1 f2 by simp
  also have "\<dots> = map (\<lambda>p. digits_value (fst p)) (sort_key (\<lambda>p. digits_value (fst p)) ob)"
    by simp
  finally show ?thesis by (simp only: sorted_sort_key)
qed

lemma yearlyData_year: "\<forall>p\<in>set (yearlyData ts). year (snd p) = fst p"
proof
  fix p assume "p \<in> set (yearlyData ts)"
  then have "(fst p, snd p) \<in> set (yearlyData ts)" by simp
  from yearlyData_fields [OF this] show "year (snd p) = fst p" by blast
qed

lemma yearlyArr_distinct: "distinct (map year (yearlyArr ts))"
  unfolding yearlyArr_def
  by (rule distinct_map_filter)
     (rule Object_values_distinct [OF yearlyData_year yearlyData_distinct])

lemma yearlyArr_member:
  "y \<in> set (yearlyArr ts) \<longleftrightarrow> (year y, y) \<in> set (yearlyData ts) \<and> 6 \<le> months y"
proof -
  have "y \<in> snd ` set (yearlyData ts) \<longleftrightarrow> (year y, y) \<in> set (yearlyData ts)"
  proof
    assume "y \<in> snd ` set (yearlyData ts)"
    then obtain p where p: "p \<in> set (yearlyData ts)" "y = snd p" by blast
    with yearlyData_year have "year y = fst p" by blast
    with p show "(year y, y) \<in> set (yearlyData ts)" by simp
  next
    assume "(year y, y) \<in> set (yearlyData ts)"
    then show "y \<in> snd ` set (yearlyData ts)" by force
  qed
  then show ?thesis by (simp add: yearlyArr_def set_Object_values)
qed

lemma yearlyArr_fields:
  assumes "y \<in> set (yearlyArr ts)"
  shows "6 \<le> months y \<and>
         months y = length (filter (\<lambda>t. year_of t = year y) ts) \<and>
         spending y = sum_list (map total_paid (filter (\<lambda>t. year_of t = year y) ts))"
proof -
  from assms have m: "(year y, y) \<in> set (yearlyData ts)" "6 \<le> months y"
    by (simp_all add: yearlyArr_member)
  from yearlyData_fields [OF m(1)] m(2) show ?thesis by blast
qed

lemma yearlyArr_years:
  "set (map year (yearlyArr ts)) = {k. 6 \<le> length (filter (\<lambda>t. year_of t = k) ts)}"
proof (intro set_eqI iffI)
  fix k assume "k \<in> set (map year (yearlyArr ts))"
  then obtain y where y: "y \<in> set (yearlyArr ts)" "k = year y" by auto
  from yearlyArr_fields [OF y(1)] y(2)
  show "k \<in> {k. 6 \<le> length (filter (\<lambda>t. year_of t = k) ts)}" by simp
next
  fix k assume "k \<in> {k. 6 \<le> length (filter (\<lambda>t. year_of t = k) ts)}"
  then have c: "6 \<le> length (filter (\<lambda>t. year_of t = k) ts)" by simp
  then have "filter (\<lambda>t. year_of t = k) ts \<noteq> []" by auto
  then have "k \<in> year_of ` set ts" by (auto simp: filter_empty_conv)
  then have "k \<in> fst ` set (yearlyData ts)" by (simp only: yearlyData_keys)
  then obtain v where v: "(k, v) \<in> set (yearlyData ts)" by auto
  from yearlyData_fields [OF v] c have "year v = k" "6 \<le> months v" by simp_all
  with v have "v \<in> set (yearlyArr ts)" by (simp add: yearlyArr_member)
  with \<open>year v = k\<close> show "k \<in> set (map year (yearlyArr ts))" by auto
qed

lemma yearlyArr_length:
  "length (yearlyArr ts) = card {k. 6 \<le> length (filter (\<lambda>t. year_of t = k) ts)}"
proof -
  have "length (yearlyArr ts) = length (map year (yearlyArr ts))" by simp
  also have "\<dots> = card (set (map year (yearlyArr ts)))"
    using yearlyArr_distinct by (rule distinct_card [symmetric])
  finally show ?thesis by (simp only: yearlyArr_years)
qed

lemma yearlyArr_sorted:
  assumes "\<forall>t\<in>set ts. is_array_index (year_of t)"
  shows "sorted (map (\<lambda>y. digits_value (year y)) (yearlyArr ts))"
proof -
  have "\<forall>p\<in>set (yearlyData ts). is_array_index (fst p)"
  proof
    fix p assume "p \<in> set (yearlyData ts)"
    then have "fst p \<in> fst ` set (yearlyData ts)" by (rule imageI)
    then have "fst p \<in> year_of ` set ts" by (simp only: yearlyData_keys)
    with assms show "is_array_index (fst p)" by auto
  qed
  from Object_values_sorted [OF yearlyData_year this]
  show ?thesis unfolding yearlyArr_def by (rule sorted_filter)
qed

lemma last_two:
  assumes "2 \<le> length xs"
  shows "xs ! (length xs - 1) = last xs \<and> xs ! (length xs - 2) = last (butlast xs)"
proof -
  from assms have n: "xs \<noteq> []" by auto
  have b: "butlast xs \<noteq> []"
  proof
    assume e: "butlast xs = []"
    have "1 \<le> length (butlast xs)" using assms by simp
    then show False unfolding e by simp
  qed
  have "last (butlast xs) = butlast xs ! (length (butlast xs) - 1)"
    using b by (rule last_conv_nth)
  also have "length (butlast xs) - 1 = length xs - 2" by simp
  also have "butlast xs ! (length xs - 2) = xs ! (length xs - 2)"
    using assms by (simp add: nth_butlast)
  finally show ?thesis using n by (simp add: last_conv_nth)
qed

lemma getGrowth_eq:
  "getGrowth ts =
     (if length (yearlyArr ts) < 2 then None
      else Some \<lparr>spendGrowth =
                   js_scale (js_div (monthly_avg (last (yearlyArr ts))
                                      - monthly_avg (last (butlast (yearlyArr ts))))
                                    (monthly_avg (last (butlast (yearlyArr ts))))) 100,
                 lastYear = year (last (yearlyArr ts)),
                 prevYear = year (last (butlast (yearlyArr ts)))\<rparr>)"
proof (cases "length (yearlyArr ts) < 2")
  case True
  then show ?thesis by (simp add: getGrowth_def Let_def)
next
  case False
  then have "2 \<le> length (yearlyArr ts)" by simp
  from last_two [OF this] False show ?thesis
    by (simp add: getGrowth_def Let_def monthly_avg_def)
qed

text \<open>
  C8. The entries of \<open>yearlyArr\<close> are exactly the calendar years (first four characters
  of \<open>claim_month\<close>) with at least 6 trend points, one entry each, holding the year's
  number of points and its summed spending; when every year is a numeral they are in
  ascending order. \<open>getGrowth\<close> returns \<open>null\<close> exactly when fewer than two years
  qualify. Otherwise it returns, for the last two entries, the difference of their average
  monthly spending (spending divided by month count) divided by the earlier average, times
  100: a finite percentage when the earlier average is not zero.
\<close>

theorem getGrowth_qualifying_years:
  "distinct (map year (yearlyArr ts)) \<and>
   set (map year (yearlyArr ts)) = {k. 6 \<le> length (filter (\<lambda>t. year_of t = k) ts)} \<and>
   (\<forall>y\<in>set (yearlyArr ts).
      6 \<le> months y \<and>
      months y = length (filter (\<lambda>t. year_of t = year y) ts) \<and>
      spending y = sum_list (map total_paid (filter (\<lambda>t. year_of t = year y) ts))) \<and>
   ((\<forall>t\<in>set ts. is_array_index (year_of t)) \<longrightarrow>
      sorted (map (\<lambda>y. digits_value (year y)) (yearlyArr ts))) \<and>
   (getGrowth ts = None \<longleftrightarrow> card {k. 6 \<le> length (filter (\<lambda>t. year_of t = k) ts)} < 2) \<and>
   (2 \<le> length (yearlyArr ts) \<longrightarrow>
      getGrowth ts =
        Some \<lparr>spendGrowth =
                 js_scale (js_div (monthly_avg (last (yearlyArr ts))
                                    - monthly_avg (last (butlast (yearlyArr ts))))
                                  (monthly_avg (last (butlast (yearlyArr ts))))) 100,
               lastYear = year (last (yearlyArr ts)),
               prevYear = year (last (butlast (yearlyArr ts)))\<rparr>) \<and>
   (2 \<le> length (yearlyArr ts) \<and> monthly_avg (last (butlast (yearlyArr ts))) \<noteq> 0 \<longrightarrow>
      map_option spendGrowth (getGrowth ts) =
        Some (Fin ((monthly_avg (last (yearlyArr ts))
                      - monthly_avg (last (butlast (yearlyArr ts))))
                   / monthly_avg (last (butlast (yearlyArr ts))) * 100)))"
proof (intro conjI)
  show "distinct (map year (yearlyArr ts))" by (rule yearlyArr_distinct)
  show "set (map year (yearlyArr ts)) = {k. 6 \<le> length (filter (\<lambda>t. year_of t = k) ts)}"
    by (rule yearlyArr_years)
  show "\<forall>y\<in>set (yearlyArr ts).
      6 \<le> months y \<and>
      months y = length (filter (\<lambda>t. year_of t = year y) ts) \<and>
      spending y = sum_list (map total_paid (filter (\<lambda>t. year_of t = year y) ts))"
    using yearlyArr_fields by blast
  show "(\<forall>t\<in>set ts. is_array_index (year_of t)) \<longrightarrow>
      sorted (map (\<lambda>y. digits_value (year y)) (yearlyArr ts))"
    using yearlyArr_sorted by blast
  show "getGrowth ts = None \<longleftrightarrow> card {k. 6 \<le> length (filter (\<lambda>t. year_of t = k) ts)} < 2"
    unfolding yearlyArr_length [symmetric] by (simp add: getGrowth_eq)
  show "2 \<le> length (yearlyArr ts) \<longrightarrow>
      getGrowth ts =
        Some \<lparr>spendGrowth =
                 js_scale (js_div (monthly_avg (last (yearlyArr ts))
                                    - monthly_avg (last (butlast (yearlyArr ts))))
                                  (monthly_avg (last (butlast (yearlyArr ts))))) 100,
               lastYear = year (last (yearlyArr ts)),
               prevYear = year (last (butlast (yearlyArr ts)))\<rparr>"
    by (simp add: getGrowth_eq)
  show "2 \<le> length (yearlyArr ts) \<and> monthly_avg (last (butlast (yearlyArr ts))) \<noteq> 0 \<longrightarrow>
      map_option spendGrowth (getGrowth ts) =
        Some (Fin ((monthly_avg (last (yearlyArr ts))
                      - monthly_avg (last (butlast (yearlyArr ts))))
                   / monthly_avg (last (butlast (yearlyArr ts))) * 100))"
    by (simp add: getGrowth_eq js_div_def)
qed

theorem getGrowth_qualifying_years_witness:
  "list_all is_array_index (map year_of example_trends) \<and>
   map year (yearlyArr example_trends) = [''2022'', ''2023''] \<and>
   map months (yearlyArr example_trends) = [6, 12] \<and>
   map spending (yearlyArr example_trends) = [300, 1200] \<and>
   2 \<le> length (yearlyArr example_trends) \<and>
   monthly_avg (last (butlast (yearlyArr example_trends))) \<noteq> 0 \<and>
   getGrowth example_trends
     = Some \<lparr>spendGrowth = Fin 100, lastYear = ''2023'', prevYear = ''2022''\<rparr> \<and>
   sorted (map (\<lambda>y. digits_value (year y)) (yearlyArr example_trends)) \<and>
   getGrowth (months_of ''2023'' 12 100 @ months_of ''2022'' 5 50) = None"
proof -
  have ya: "yearlyArr example_trends
              = [\<lparr>year = ''2022'', spending = 300, claims = 6, months = 6\<rparr>,
                 \<lparr>year = ''2023'', spending = 1200, claims = 12, months = 12\<rparr>]"
    by code_simp
  have i: "\<forall>t\<in>set example_trends. is_array_index (year_of t)" by code_simp
  have g: "getGrowth example_trends
     = Some \<lparr>spendGrowth = Fin 100, lastYear = ''2023'', prevYear = ''2022''\<rparr>"
    by code_simp
  have n: "getGrowth (months_of ''2023'' 12 100 @ months_of ''2022'' 5 50) = None"
    by code_simp
  have l: "2 \<le> length (yearlyArr example_trends)" unfolding ya by simp
  have a: "monthly_avg (last (butlast (yearlyArr example_trends))) \<noteq> 0"
    unfolding ya by (simp add: monthly_avg_def)
  from getGrowth_qualifying_years [of example_trends] i
  have s: "sorted (map (\<lambda>y. digits_value (year y)) (yearlyArr example_trends))" by blast
  have f: "map year (yearlyArr example_trends) = [''2022'', ''2023'']"
    "map months (yearlyArr example_trends) = [6, 12]"
    "map spending (yearlyArr example_trends) = [300, 1200]"
    unfolding ya by simp_all
  have j: "list_all is_array_index (map year_of example_trends)" by code_simp
  from j f l a g s n show ?thesis by blast
qed

section \<open>Properties of the aggregation service\<close>

lemma sum_list_single_key:
  fixes c :: "'b :: comm_monoid_add"
  assumes "distinct ks" and "a \<in> set ks"
  shows "sum_list (map (\<lambda>k. if a = k then c else 0) ks) = c"
  using assms
proof (induction ks)
  case Nil
  then show ?case by simp
next
  case (Cons k ks)
  show ?case
  proof (cases "a = k")
    case True
    with Cons.prems have "a \<notin> set ks" by simp
    then have "map (\<lambda>k. if a = k then c else 0) ks = map (\<lambda>k. 0) ks" by auto
    then have "sum_list (map (\<lambda>k. if a = k then c else 0) ks) = 0" by (simp only: sum_list_0)
    with True show ?thesis by simp
  next
    case False
    with Cons show ?thesis by simp
  qed
qed

lemma sum_list_groups:
  fixes f :: "'r \<Rightarrow> 'b :: comm_monoid_add"
  assumes "distinct ks" and "key ` set rs \<subseteq> set ks"
  shows "sum_list (map (\<lambda>k. sum_list (map f (filter (\<lambda>r. key r = k) rs))) ks)
           = sum_list (map f rs)"
  using assms(2)
proof (induction rs)
  case Nil
  show ?case by simp
next
  case (Cons r rs)
  then have m: "key r \<in> set ks" and s: "key ` set rs \<subseteq> set ks" by auto
  have "sum_list (map (\<lambda>k. sum_list (map f (filter (\<lambda>r. key r = k) (r # rs)))) ks)
          = sum_list (map (\<lambda>k. (if key r = k then f r else 0)
                                 + sum_list (map f (filter (\<lambda>r. key r = k) rs))) ks)"
    by (rule arg_cong [where f = sum_list]) (rule map_cong, simp_all)
  also have "\<dots> = sum_list (map (\<lambda>k. if key r = k then f r else 0) ks)
                    + sum_list (map (\<lambda>k. sum_list (map f (filter (\<lambda>r. key r = k) rs))) ks)"
    by (rule sum_list_addf)
  also have "\<dots> = f r + sum_list (map f rs)"
    by (simp only: sum_list_single_key [OF assms(1) m] Cons.IH [OF s])
  finally show ?case by simp
qed

text \<open>
  C3. Summing \<open>total_paid\<close> over the points of \<open>trends()\<close> without bounds gives exactly
  the \<open>total_paid\<close> of \<open>overview()\<close>, for every fact table: the amounts are exact
  decimals, so the order of summation does not matter.
\<close>

theorem trends_sum_is_overview_total:
  "sum_list (map mt_total_paid (trends None None rows)) = ov_total_paid (overview rows)"
proof -
  have "sum_list (map mt_total_paid (trends None None rows))
          = sum_list (map (\<lambda>m. sum_list (map paid_amount (filter (\<lambda>r. cr_month r = m) rows)))
                          (sort (remdups (map cr_month rows))))"
    by (simp add: trends_def in_bounds_def month_point_def comp_def)
  also have "\<dots> = sum_list (map paid_amount rows)"
    by (rule sum_list_groups) simp_all
  finally show ?thesis by (simp add: overview_def)
qed

theorem trends_sum_is_overview_total_witness:
  "sum_list (map mt_total_paid (trends None None example_rows)) = 1003 / 10 \<and>
   ov_total_paid (overview example_rows) = 1003 / 10 \<and>
   map mt_month (trends None None example_rows) = [''2023-01'', ''2023-02'']"
proof -
  have o: "ov_total_paid (overview example_rows) = 1003 / 10"
    by (simp add: overview_def example_rows_def)
  have m: "map mt_month (trends None None example_rows) = [''2023-01'', ''2023-02'']"
    by code_simp
  from trends_sum_is_overview_total [of example_rows] o m show ?thesis by simp
qed

section \<open>Properties of the anomaly detector\<close>

lemma mean_constant:
  assumes "\<forall>x\<in>set population. x = c" and "population \<noteq> []"
  shows "mean population = c"
proof -
  from assms(1) have "population = replicate (length population) c"
    by (induction population) auto
  then have "sum_list population = of_nat (length population) * c"
    by (metis sum_list_replicate)
  with assms(2) show ?thesis by (simp add: mean_def)
qed

lemma sample_sd_constant:
  assumes "\<forall>x\<in>set population. x = c"
  shows "sample_sd population = 0"
proof (cases "length population \<le> 1")
  case True
  then show ?thesis by (simp add: sample_sd_def sample_variance_def)
next
  case False
  then have "population \<noteq> []" by auto
  with assms have m: "mean population = c" by (rule mean_constant)
  have "map (\<lambda>x. (x - mean population)\<^sup>2) population = map (\<lambda>x. 0) population"
    using assms unfolding m by (intro map_cong) simp_all
  then have "sum_list (map (\<lambda>x. (x - mean population)\<^sup>2) population) = 0"
    by (simp only: sum_list_0)
  then show ?thesis by (simp add: sample_sd_def sample_variance_def)
qed

lemma sample_sd_single: "length population \<le> 1 \<Longrightarrow> sample_sd population = 0"
  by (simp add: sample_sd_def sample_variance_def)

lemma sample_sd_zero_imp:
  assumes "sample_sd population = 0" and "\<not> length population \<le> 1"
  shows "\<forall>x\<in>set population. x = mean population"
proof -
  from assms have "sum_list (map (\<lambda>x. (x - mean population)\<^sup>2) population) = 0"
    by (simp add: sample_sd_def sample_variance_def)
  moreover have "\<forall>y\<in>set (map (\<lambda>x. (x - mean population)\<^sup>2) population). 0 \<le> y" by auto
  ultimately have "\<forall>y\<in>set (map (\<lambda>x. (x - mean population)\<^sup>2) population). y = 0"
    by (simp only: sum_list_nonneg_eq_0_iff)
  then show ?thesis by simp
qed

text \<open>
  C2. When the sample standard deviation of a population is zero, every member's z-score
  is exactly 0. The standard deviation is zero for a population of size 1 and for a
  population whose members are all equal, and in no other case (apart from the empty
  population). No z-score is infinite or not a number.
\<close>

theorem z_score_zero_deviation:
  "(sample_sd population = 0 \<longrightarrow> (\<forall>z\<in>set (population_z_scores population). z = Finite 0)) \<and>
   (length population = 1 \<longrightarrow> sample_sd population = 0) \<and>
   ((\<forall>x\<in>set population. x = c) \<longrightarrow> sample_sd population = 0) \<and>
   (sample_sd population = 0 \<longrightarrow>
      length population \<le> 1 \<or> (\<forall>x\<in>set population. x = mean population)) \<and>
   (\<forall>z\<in>set (population_z_scores population). z \<noteq> Infinite \<and> z \<noteq> NotANumber)"
proof (intro conjI impI)
  assume "sample_sd population = 0"
  then show "\<forall>z\<in>set (population_z_scores population). z = Finite 0"
    by (simp add: population_z_scores_def z_score_def)
next
  assume "length population = 1"
  then show "sample_sd population = 0" by (simp add: sample_sd_single)
next
  assume "\<forall>x\<in>set population. x = c"
  then show "sample_sd population = 0" by (rule sample_sd_constant)
next
  assume "sample_sd population = 0"
  then show "length population \<le> 1 \<or> (\<forall>x\<in>set population. x = mean population)"
    using sample_sd_zero_imp by blast
next
  show "\<forall>z\<in>set (population_z_scores population). z \<noteq> Infinite \<and> z \<noteq> NotANumber"
    by (auto simp: population_z_scores_def z_score_def)
qed

theorem z_score_zero_deviation_witness:
  "sample_sd [10, 10, 10] = 0 \<and> population_z_scores [10, 10, 10] = [Finite 0, Finite 0, Finite 0] \<and>
   length [42 :: real] = 1 \<and> sample_sd [42] = 0 \<and> population_z_scores [42] = [Finite 0]"
proof -
  have a: "\<forall>x\<in>set [10, 10, 10 :: real]. x = 10" by simp
  from z_score_zero_deviation [of "[10, 10, 10]" 10] a
  have s: "sample_sd [10, 10, 10] = 0" by blast
  from z_score_zero_deviation [of "[42]"]
  have t: "sample_sd [42] = 0" by simp
  from z_score_zero_deviation [of "[10, 10, 10]"] s
  have "\<forall>z\<in>set (population_z_scores [10, 10, 10]). z = Finite 0" by blast
  then have u: "population_z_scores [10, 10, 10] = [Finite 0, Finite 0, Finite 0]"
    by (simp add: population_z_scores_def)
  from z_score_zero_deviation [of "[42]"] t
  have "\<forall>z\<in>set (population_z_scores [42]). z = Finite 0" by blast
  then have v: "population_z_scores [42] = [Finite 0]"
    by (simp add: population_z_scores_def)
  from s t u v show ?thesis by simp
qed

section \<open>Properties of the query guard\<close>

lemma find_write_verb:
  "(\<exists>v\<in>set vs. v \<in> set write_verbs) \<Longrightarrow> \<exists>v. find (\<lambda>v. v \<in> set write_verbs) vs = Some v"
  by (cases "find (\<lambda>v. v \<in> set write_verbs) vs") (auto simp: find_None_iff)

lemma find_foreign_table:
  "(\<exists>t\<in>set ts. t \<notin> set whitelist) \<Longrightarrow> \<exists>t. find (\<lambda>t. t \<notin> set whitelist) ts = Some t"
  by (cases "find (\<lambda>t. t \<notin> set whitelist) ts") (auto simp: find_None_iff)

lemma guard_rejects_write_verb:
  assumes "\<exists>s\<in>set cand. \<exists>v\<in>set (st_verbs s). v \<in> set write_verbs"
  shows "\<exists>r. query_guard write_verbs whitelist cand = Inl r"
proof (cases cand)
  case Nil
  then show ?thesis by (simp add: query_guard_def)
next
  case (Cons s rest)
  show ?thesis
  proof (cases rest)
    case Nil
    with Cons assms have "\<exists>v\<in>set (st_verbs s). v \<in> set write_verbs" by simp
    from find_write_verb [OF this] obtain v
      where "find (\<lambda>v. v \<in> set write_verbs) (st_verbs s) = Some v" ..
    with Cons Nil show ?thesis by (simp add: query_guard_def)
  next
    case (Cons s' rest')
    with \<open>cand = s # rest\<close> show ?thesis by (simp add: query_guard_def)
  qed
qed

lemma guard_rejects_second_statement:
  assumes "1 < length cand"
  shows "query_guard write_verbs whitelist cand = Inl (MultipleStatements (length cand))"
proof -
  from assms obtain s s' rest where "cand = s # s' # rest"
    by (cases cand; cases "tl cand") auto
  then show ?thesis by (simp add: query_guard_def)
qed

lemma guard_rejects_foreign_table:
  assumes "\<exists>s\<in>set cand. \<exists>t\<in>set (st_tables s). t \<notin> set whitelist"
  shows "\<exists>r. query_guard write_verbs whitelist cand = Inl r"
proof (cases cand)
  case Nil
  then show ?thesis by (simp add: query_guard_def)
next
  case (Cons s rest)
  show ?thesis
  proof (cases rest)
    case Nil
    with Cons assms have "\<exists>t\<in>set (st_tables s). t \<notin> set whitelist" by simp
    from find_foreign_table [OF this] obtain t
      where "find (\<lambda>t. t \<notin> set whitelist) (st_tables s) = Some t" ..
    with Cons Nil show ?thesis
      by (cases "find (\<lambda>v. v \<in> set write_verbs) (st_verbs s)") (simp_all add: query_guard_def)
  next
    case (Cons s' rest')
    with \<open>cand = s # rest\<close> show ?thesis by (simp add: query_guard_def)
  qed
qed

lemma guard_accepts:
  assumes "\<forall>v\<in>set (st_verbs s). v \<notin> set write_verbs"
    and "\<forall>t\<in>set (st_tables s). t \<in> set whitelist"
  shows "query_guard write_verbs whitelist [s] = Inr (inject_limit s)"
proof -
  from assms(1) have "find (\<lambda>v. v \<in> set write_verbs) (st_verbs s) = None"
    by (simp add: find_None_iff)
  moreover from assms(2) have "find (\<lambda>t. t \<notin> set whitelist) (st_tables s) = None"
    by (simp add: find_None_iff)
  ultimately show ?thesis by (simp add: query_guard_def)
qed

lemma inject_limit_props:
  "st_limit (inject_limit s) \<noteq> None \<and>
   st_verbs (inject_limit s) = st_verbs s \<and>
   st_tables (inject_limit s) = st_tables s \<and>
   (st_limit s \<noteq> None \<longrightarrow> inject_limit s = s) \<and>
   (st_limit s = None \<longrightarrow>
      st_limit (inject_limit s) = Some default_cap \<and>
      st_text (inject_limit s) = st_text s @ '' LIMIT 1000'')"
  by (cases "st_limit s") (simp_all add: inject_limit_def)

text \<open>
  C1. The guard rejects every candidate that contains a data-definition or
  data-modification verb, or has more than one statement, or references a table outside the
  whitelist. A single read-only statement over whitelisted tables is accepted; the accepted
  statement has a row limit: its own when it has one, and otherwise the default cap is
  appended, the statement is not rejected.
\<close>

theorem query_guard_rules:
  "((\<exists>s\<in>set cand. \<exists>v\<in>set (st_verbs s). v \<in> set write_verbs) \<longrightarrow>
      (\<exists>r. query_guard write_verbs whitelist cand = Inl r)) \<and>
   (1 < length cand \<longrightarrow>
      query_guard write_verbs whitelist cand = Inl (MultipleStatements (length cand))) \<and>
   ((\<exists>s\<in>set cand. \<exists>t\<in>set (st_tables s). t \<notin> set whitelist) \<longrightarrow>
      (\<exists>r. query_guard write_verbs whitelist cand = Inl r)) \<and>
   ((\<forall>v\<in>set (st_verbs s). v \<notin> set write_verbs) \<and> (\<forall>t\<in>set (st_tables s). t \<in> set whitelist) \<longrightarrow>
      query_guard write_verbs whitelist [s] = Inr (inject_limit s) \<and>
      st_limit (inject_limit s) \<noteq> None \<and>
      st_verbs (inject_limit s) = st_verbs s \<and>
      st_tables (inject_limit s) = st_tables s \<and>
      (st_limit s \<noteq> None \<longrightarrow> inject_limit s = s) \<and>
      (st_limit s = None \<longrightarrow>
         st_limit (inject_limit s) = Some default_cap \<and>
         st_text (inject_limit s) = st_text s @ '' LIMIT 1000''))"
proof -
  have a: "(\<exists>s\<in>set cand. \<exists>v\<in>set (st_verbs s). v \<in> set write_verbs) \<longrightarrow>
      (\<exists>r. query_guard write_verbs whitelist cand = Inl r)"
    using guard_rejects_write_verb by blast
  have b: "1 < length cand \<longrightarrow>
      query_guard write_verbs whitelist cand = Inl (MultipleStatements (length cand))"
    using guard_rejects_second_statement by blast
  have c: "(\<exists>s\<in>set cand. \<exists>t\<in>set (st_tables s). t \<notin> set whitelist) \<longrightarrow>
      (\<exists>r. query_guard write_verbs whitelist cand = Inl r)"
    using guard_rejects_foreign_table by blast
  have d: "(\<forall>v\<in>set (st_verbs s). v \<notin> set write_verbs) \<and> (\<forall>t\<in>set (st_tables s). t \<in> set whitelist) \<longrightarrow>
      query_guard write_verbs whitelist [s] = Inr (inject_limit s)"
    using guard_accepts by blast
  note e = inject_limit_props [of s]
  from a b c d e show ?thesis by blast
qed

theorem query_guard_rules_witness:
  "query_guard example_verbs example_whitelist [example_drop] = Inl (WriteVerb ''DROP'') \<and>
   query_guard example_verbs example_whitelist [example_select, example_select]
     = Inl (MultipleStatements 2) \<and>
   query_guard example_verbs example_whitelist [example_foreign]
     = Inl (TableNotAllowed ''secrets'') \<and>
   set (st_verbs example_select) \<inter> set example_verbs = {} \<and>
   set (st_tables example_select) \<subseteq> set example_whitelist \<and>
   st_limit example_select = None \<and>
   query_guard example_verbs example_whitelist [example_select]
     = Inr \<lparr>st_text = ''SELECT * FROM claims LIMIT 1000'', st_verbs = [''SELECT''],
            st_tables = [''claims''], st_limit = Some 1000\<rparr>"
proof -
  have h1: "\<forall>v\<in>set (st_verbs example_select). v \<notin> set example_verbs"
    by (simp add: example_select_def example_verbs_def)
  have h2: "\<forall>t\<in>set (st_tables example_select). t \<in> set example_whitelist"
    by (simp add: example_select_def example_whitelist_def)
  have h3: "st_limit example_select = None" by (simp add: example_select_def)
  have i: "inject_limit example_select
     = \<lparr>st_text = ''SELECT * FROM claims LIMIT 1000'', st_verbs = [''SELECT''],
            st_tables = [''claims''], st_limit = Some 1000\<rparr>"
    by (simp add: inject_limit_def example_select_def default_cap_def)
  from query_guard_rules [of _ example_verbs example_whitelist example_select] h1 h2
  have g: "query_guard example_verbs example_whitelist [example_select]
             = Inr (inject_limit example_select)" by blast
  have r1: "query_guard example_verbs example_whitelist [example_drop] = Inl (WriteVerb ''DROP'')"
    by (simp add: query_guard_def example_drop_def example_verbs_def)
  have l: "1 < length [example_select, example_select]" by simp
  from query_guard_rules [of "[example_select, example_select]" example_verbs example_whitelist] l
  have r2: "query_guard example_verbs example_whitelist [example_select, example_select]
     = Inl (MultipleStatements 2)" by simp
  have r3: "query_guard example_verbs example_whitelist [example_foreign]
     = Inl (TableNotAllowed ''secrets'')"
    by (simp add: query_guard_def example_foreign_def example_verbs_def example_whitelist_def)
  have k1: "set (st_verbs example_select) \<inter> set example_verbs = {}"
    by (simp add: example_select_def example_verbs_def)
  have k2: "set (st_tables example_select) \<subseteq> set example_whitelist"
    by (simp add: example_select_def example_whitelist_def)
  from g i r1 r2 r3 k1 k2 h3 show ?thesis by simp
qed

end
